theory Spec2Isabelle
  imports Complex_Main
begin

section \<open>STIR feature selection (ITMO\_FS/filters/multivariate/STIR.py)\<close>

text \<open>
  A shallow embedding of the class \<open>STIR\<close>. Conventions:
  \<^item> a two-dimensional numeric array is the list of its rows together with its dtype; an
    array without rows is \<open>[]\<close> and its column count is taken to be 0;
  \<^item> the entries are real numbers. In a float64 array the arithmetic is exact: rounding,
    overflow and NaN inputs are outside the model. In an array of a fixed-width integer
    dtype the entries are integers, and subtraction and absolute value wrap around as numpy
    computes them in that dtype. Where numpy would produce \<open>inf\<close> or \<open>nan\<close> from a
    division by zero, the model stops with the outcome \<open>NonFinite\<close>;
  \<^item> \<open>np.argsort\<close> is a parameter \<open>asort\<close> of the model, known only by its contract
    (\<open>argsort_ok\<close>): the code calls it with the default kind, which fixes no order among
    equal keys;
  \<^item> class labels are integers (the docstring: usually -1/1), \<open>k\<close> is a natural number,
    \<open>n_features_to_keep\<close> is a Python integer with Python's slice semantics;
  \<^item> every raise of the source is a value \<open>Inl e\<close>; a method returns its outcome
    together with the state of the object it leaves behind;
  \<^item> the input is the \<open>np.ndarray\<close> case of the source; labelled tables
    (the \<open>else\<close> branch of \<open>transform\<close>) are outside the model.
\<close>

subsection \<open>Data\<close>

type_synonym matrix = "real list list"

text \<open>
  The dtype of the input array: float64, or an integer type of \<open>w\<close> bits
  (\<open>np.int8\<close> is \<open>SignedInt 8\<close>, \<open>np.uint8\<close> is \<open>UnsignedInt 8\<close>).
\<close>

datatype dtype = Float64 | SignedInt nat | UnsignedInt nat

datatype error =
    InvalidInput              \<comment> \<open>rejected by the input check\<close>
  | ZeroSizeReduction         \<comment> \<open>ValueError: np.max / np.min over an axis of length 0\<close>
  | ShapeMismatch             \<comment> \<open>ValueError: np.column\_stack of columns of different lengths\<close>
  | ZeroDivisionError         \<comment> \<open>Python's \<open>1 / 0\<close>\<close>
  | NonFinite                 \<comment> \<open>not a raise: numpy divides by zero and goes on with inf or nan\<close>
  | IndexError                \<comment> \<open>index out of bounds\<close>
  | AttributeError string     \<comment> \<open>the named attribute was never assigned\<close>

text \<open>
  The attributes of a \<open>STIR\<close> object. \<open>feature_scores\<close> and \<open>top_features\<close> are
  assigned \<open>None\<close> by \<open>__init__\<close>; \<open>feature_names\<close> and \<open>selected_features\<close> are
  assigned by \<open>fit\<close> only, and \<open>None\<close> stands for an attribute that does not exist.
\<close>

record stir =
  n_features_to_keep :: int
  feature_scores :: "real list option"
  top_features :: "nat list option"
  feature_names :: "(nat \<times> string) list option"
  selected_features :: "nat list option"

definition STIR_init :: "int \<Rightarrow> stir" where
  "STIR_init n =
     \<lparr> n_features_to_keep = n, feature_scores = None, top_features = None,
       feature_names = None, selected_features = None \<rparr>"

subsection \<open>numpy and sklearn operations\<close>

text \<open>
  The value that the result \<open>x\<close> of an integer operation takes in a dtype: unchanged in
  float64, reduced modulo \<open>2 ^ w\<close> into the range of the integer type otherwise.
\<close>

fun wrap :: "dtype \<Rightarrow> real \<Rightarrow> real" where
  "wrap Float64 x = x"
| "wrap (UnsignedInt w) x = of_int (\<lfloor>x\<rfloor> mod 2 ^ w)"
| "wrap (SignedInt w) x = of_int ((\<lfloor>x\<rfloor> + 2 ^ (w - 1)) mod 2 ^ w - 2 ^ (w - 1))"

definition np_subtract :: "dtype \<Rightarrow> real \<Rightarrow> real \<Rightarrow> real" where
  "np_subtract dt a b = wrap dt (a - b)"

definition np_abs :: "dtype \<Rightarrow> real \<Rightarrow> real" where
  "np_abs dt x = wrap dt \<bar>x\<bar>"

definition shape1 :: "matrix \<Rightarrow> nat" where
  "shape1 X = (case X of [] \<Rightarrow> 0 | r # _ \<Rightarrow> length r)"

definition column :: "matrix \<Rightarrow> nat \<Rightarrow> real list" where
  "column X j = map (\<lambda>row. row ! j) X"

definition np_max_axis0 :: "matrix \<Rightarrow> error + real list" where
  "np_max_axis0 X =
     (if X = [] then Inl ZeroSizeReduction
      else Inr (map (\<lambda>j. Max (set (column X j))) [0..<shape1 X]))"

definition np_min_axis0 :: "matrix \<Rightarrow> error + real list" where
  "np_min_axis0 X =
     (if X = [] then Inl ZeroSizeReduction
      else Inr (map (\<lambda>j. Min (set (column X j))) [0..<shape1 X]))"

text \<open>\<open>v[v == a] = c\<close>: assignment through a boolean mask.\<close>

definition mask_assign_eq :: "real \<Rightarrow> real \<Rightarrow> real list \<Rightarrow> real list" where
  "mask_assign_eq a c v = map (\<lambda>x. if x = a then c else x) v"

text \<open>Division of floats in numpy: a zero divisor gives inf or nan, here \<open>None\<close>.\<close>

definition np_divide :: "real \<Rightarrow> real \<Rightarrow> real option" where
  "np_divide a b = (if b = 0 then None else Some (a / b))"

definition np_divide_vec :: "real list \<Rightarrow> real list \<Rightarrow> real list option" where
  "np_divide_vec row v = those (map2 np_divide row v)"

text \<open>\<open>sklearn.metrics.pairwise_distances\<close> with its default metric, the Euclidean one.\<close>

definition euclidean :: "real list \<Rightarrow> real list \<Rightarrow> real" where
  "euclidean a b = sqrt (sum_list (map2 (\<lambda>x y. (x - y)\<^sup>2) a b))"

definition pairwise_distances :: "matrix \<Rightarrow> matrix" where
  "pairwise_distances X = map (\<lambda>a. map (\<lambda>b. euclidean a b) X) X"

text \<open>
  \<open>np.argsort\<close>, called with its default kind: the indices that sort the array in ascending
  order. The default kind is not stable, so the order among equal keys is not fixed; the
  model takes the function as a parameter \<open>asort\<close> and knows of it what numpy documents:
  every index once, the keys ascending.
\<close>

definition argsort_ok :: "(real list \<Rightarrow> nat list) \<Rightarrow> bool" where
  "argsort_ok asort =
     (\<forall>v. set (asort v) = {0..<length v} \<and> distinct (asort v)
          \<and> sorted (map (\<lambda>j. v ! j) (asort v)))"

text \<open>
  One function that meets the contract, an insertion sort, to run the model on concrete
  inputs. On an array without equal keys every function that meets the contract returns
  the same order.
\<close>

definition insertion_argsort :: "real list \<Rightarrow> nat list" where
  "insertion_argsort v = sort_key (\<lambda>j. v ! j) [0..<length v]"

text \<open>\<open>xs[:n]\<close> for a Python integer \<open>n\<close>: a negative \<open>n\<close> counts from the end.\<close>

definition py_take :: "int \<Rightarrow> 'a list \<Rightarrow> 'a list" where
  "py_take n xs = (if 0 \<le> n then take (nat n) xs else take (length xs - nat (- n)) xs)"

text \<open>\<open>np.column_stack((a, b))\<close> of two one-dimensional arrays: the rows \<open>(a[i], b[i])\<close>.\<close>

definition column_stack :: "'a list \<Rightarrow> 'b list \<Rightarrow> error + ('a \<times> 'b) list" where
  "column_stack a b = (if length a = length b then Inr (zip a b) else Inl ShapeMismatch)"

subsection \<open>The helpers of \<open>utils\<close>\<close>

text \<open>
  Modelled from the spec: \<open>generate_features\<close> of \<open>utils\<close> is not among the sources.
  The spec addresses features by the integer indices \<open>0..n_features-1\<close>.
\<close>

definition generate_features :: "matrix \<Rightarrow> nat list" where
  "generate_features X = [0..<shape1 X]"

text \<open>
  Modelled from the spec: \<open>DataChecker._check_input\<close> of \<open>utils\<close> is not among the
  sources. The spec gives it the coercion to arrays, the alignment check
  \<open>len(y) == n_samples\<close> and the length check of the feature names; a two-dimensional
  array has rows of one length. The spec does not say which names stand in for absent
  ones: the model takes none. The dtype of the array is left as it is.
\<close>

definition check_input ::
  "matrix \<Rightarrow> int list \<Rightarrow> string list option \<Rightarrow> error + (matrix \<times> int list \<times> string list)" where
  "check_input X y names =
     (if length y \<noteq> length X \<or> (\<exists>r\<in>set X. length r \<noteq> shape1 X) then Inl InvalidInput
      else case names of
             None \<Rightarrow> Inr (X, y, [])
           | Some ns \<Rightarrow> if length ns = shape1 X then Inr (X, y, ns) else Inl InvalidInput)"

subsection \<open>\<open>max_diff\<close> and \<open>distance_matrix\<close>\<close>

text \<open>Line 40: the difference is taken in the dtype of \<open>X\<close>.\<close>

definition max_diff :: "dtype \<Rightarrow> matrix \<Rightarrow> error + real list" where
  "max_diff dt X =
     (case np_max_axis0 X of Inl e \<Rightarrow> Inl e
      | Inr mx \<Rightarrow> (case np_min_axis0 X of Inl e \<Rightarrow> Inl e
                  | Inr mn \<Rightarrow> Inr (map2 (np_subtract dt) mx mn)))"

text \<open>
  The vector \<open>max_diff_vec\<close> that \<open>distance_matrix\<close> divides by (lines 63 and 67):
  converted to float64, zeros replaced.
\<close>

definition max_diff_vec :: "dtype \<Rightarrow> matrix \<Rightarrow> error + real list" where
  "max_diff_vec dt X =
     (case max_diff dt X of Inl e \<Rightarrow> Inl e
      | Inr d \<Rightarrow> Inr (mask_assign_eq 0 (1 / 10 ^ 14) d))"

text \<open>Line 66: \<open>X - min_vec\<close>, in the dtype of \<open>X\<close>.\<close>

definition X_centered :: "dtype \<Rightarrow> matrix \<Rightarrow> real list \<Rightarrow> matrix" where
  "X_centered dt X min_vec = map (\<lambda>row. map2 (np_subtract dt) row min_vec) X"

definition X_scaled :: "dtype \<Rightarrow> matrix \<Rightarrow> error + matrix" where
  "X_scaled dt X =
     (case max_diff_vec dt X of Inl e \<Rightarrow> Inl e
      | Inr mdv \<Rightarrow>
          (case np_min_axis0 X of Inl e \<Rightarrow> Inl e
           | Inr min_vec \<Rightarrow>
               (case those (map (\<lambda>row. np_divide_vec row mdv) (X_centered dt X min_vec)) of
                  None \<Rightarrow> Inl NonFinite
                | Some Xs \<Rightarrow> Inr Xs)))"

definition distance_matrix :: "dtype \<Rightarrow> matrix \<Rightarrow> error + matrix" where
  "distance_matrix dt X =
     (case X_scaled dt X of Inl e \<Rightarrow> Inl e | Inr Xs \<Rightarrow> Inr (pairwise_distances Xs))"

subsection \<open>\<open>find_neighbors\<close>\<close>

text \<open>The body of the loop over the samples (lines 104 to 112).\<close>

definition sample_neighbors ::
  "(real list \<Rightarrow> nat list) \<Rightarrow> matrix \<Rightarrow> int list \<Rightarrow> nat \<Rightarrow> nat
   \<Rightarrow> error + (nat list \<times> nat list)" where
  "sample_neighbors asort X_distances y k i =
     (let distances = X_distances ! i;
          nearest = asort distances;
          nearest_matrix = map (\<lambda>j. (j, y ! j)) nearest
      in case nearest_matrix of
           [] \<Rightarrow> Inl IndexError
         | row0 # _ \<Rightarrow>
             (let nearest_hits = filter (\<lambda>row. snd row = snd row0) nearest_matrix;
                  nearest_misses = filter (\<lambda>row. snd row \<noteq> snd row0) nearest_matrix;
                  k_nearest_hits = map fst (take k (drop 1 nearest_hits));
                  k_nearest_misses = map fst (take k nearest_misses)
              in Inr (k_nearest_hits, k_nearest_misses)))"

fun neighbors_loop ::
  "(real list \<Rightarrow> nat list) \<Rightarrow> matrix \<Rightarrow> int list \<Rightarrow> nat \<Rightarrow> nat list
   \<Rightarrow> nat list \<times> nat list \<times> nat list
   \<Rightarrow> error + (nat list \<times> nat list \<times> nat list)" where
  "neighbors_loop asort D y k [] acc = Inr acc"
| "neighbors_loop asort D y k (i # rest) (indexes, hits, misses) =
     (case sample_neighbors asort D y k i of
        Inl e \<Rightarrow> Inl e
      | Inr (k_nearest_hits, k_nearest_misses) \<Rightarrow>
          neighbors_loop asort D y k rest
            (indexes @ replicate k i, hits @ k_nearest_hits, misses @ k_nearest_misses))"

definition find_neighbors ::
  "(real list \<Rightarrow> nat list) \<Rightarrow> dtype \<Rightarrow> matrix \<Rightarrow> int list \<Rightarrow> nat
   \<Rightarrow> error + ((nat \<times> nat) list \<times> (nat \<times> nat) list)" where
  "find_neighbors asort dt X y k =
     (case distance_matrix dt X of Inl e \<Rightarrow> Inl e
      | Inr X_distances \<Rightarrow>
          (case neighbors_loop asort X_distances y k [0..<length X] ([], [], []) of
             Inl e \<Rightarrow> Inl e
           | Inr (indexes, hits, misses) \<Rightarrow>
               (case column_stack indexes hits of Inl e \<Rightarrow> Inl e
                | Inr hit_pairs \<Rightarrow>
                    (case column_stack indexes misses of Inl e \<Rightarrow> Inl e
                     | Inr miss_pairs \<Rightarrow> Inr (hit_pairs, miss_pairs)))))"

subsection \<open>\<open>fit\<close>\<close>

text \<open>The vector \<open>range_vec\<close> of \<open>fit\<close> (lines 153 and 154).\<close>

definition range_vec :: "dtype \<Rightarrow> matrix \<Rightarrow> error + real list" where
  "range_vec dt X =
     (case max_diff dt X of Inl e \<Rightarrow> Inl e
      | Inr d \<Rightarrow> Inr (mask_assign_eq 0 (1 / 10 ^ 14) d))"

text \<open>
  The body of the loop over the features (lines 167 to 181). The attribute values keep the
  dtype of \<open>X\<close>: the difference and its absolute value are taken in that dtype, and only
  the product with \<open>one_over_range\<close> is a float.
\<close>

definition feature_weight ::
  "dtype \<Rightarrow> matrix \<Rightarrow> (nat \<times> nat) list \<Rightarrow> (nat \<times> nat) list \<Rightarrow> real list \<Rightarrow> nat \<Rightarrow> nat
   \<Rightarrow> real" where
  "feature_weight dt X hit_pairs miss_pairs one_over_range n_samples feature_index =
     (let hit_index = map fst hit_pairs; hits = map snd hit_pairs;
          miss_index = map fst miss_pairs; misses = map snd miss_pairs;
          attr_values = column X feature_index;
          hit_neighbors = map (\<lambda>i. attr_values ! i) hits;
          miss_neighbors = map (\<lambda>i. attr_values ! i) misses;
          hit_values = map (\<lambda>i. attr_values ! i) hit_index;
          miss_values = map (\<lambda>i. attr_values ! i) miss_index;
          attr_diff_hits =
            map (\<lambda>d. np_abs dt d * one_over_range ! feature_index)
                (map2 (np_subtract dt) hit_neighbors hit_values);
          attr_diff_misses =
            map (\<lambda>d. np_abs dt d * one_over_range ! feature_index)
                (map2 (np_subtract dt) miss_neighbors miss_values);
          mu_hits = sum_list attr_diff_hits / real n_samples;
          mu_misses = sum_list attr_diff_misses / real n_samples
      in mu_misses - mu_hits)"

definition compute_weights ::
  "dtype \<Rightarrow> matrix \<Rightarrow> (nat \<times> nat) list \<Rightarrow> (nat \<times> nat) list \<Rightarrow> real list \<Rightarrow> nat \<Rightarrow> nat list
   \<Rightarrow> real list" where
  "compute_weights dt X hit_pairs miss_pairs one_over_range n_samples new_features =
     fold (\<lambda>feature_index weights.
             weights[feature_index :=
               feature_weight dt X hit_pairs miss_pairs one_over_range n_samples feature_index])
          new_features (replicate (shape1 X) 0)"

text \<open>Lines 150 to 183: the scores, or the error that ends \<open>fit\<close>.\<close>

definition compute_scores ::
  "(real list \<Rightarrow> nat list) \<Rightarrow> dtype \<Rightarrow> matrix \<Rightarrow> int list \<Rightarrow> nat \<Rightarrow> error + real list" where
  "compute_scores asort dt X y k =
     (let new_features = generate_features X; n_samples = length X in
      case find_neighbors asort dt X y k of Inl e \<Rightarrow> Inl e
      | Inr (hit_pairs, miss_pairs) \<Rightarrow>
          (case range_vec dt X of Inl e \<Rightarrow> Inl e
           | Inr rv \<Rightarrow>
               (case those (map (np_divide 1) rv) of None \<Rightarrow> Inl NonFinite
                | Some one_over_range \<Rightarrow>
                    if n_samples = 0 then Inl ZeroDivisionError
                    else
                      (let one_over_m = 1 / real n_samples;
                           weights = compute_weights dt X hit_pairs miss_pairs one_over_range
                                       n_samples new_features
                       in Inr (map (\<lambda>w. w * one_over_m * 1000) weights)))))"

text \<open>Line 184: \<open>features[np.argsort(scores)[::-1][:n_features_to_keep]]\<close>.\<close>

definition select_features ::
  "(real list \<Rightarrow> nat list) \<Rightarrow> nat list \<Rightarrow> real list \<Rightarrow> int \<Rightarrow> nat list" where
  "select_features asort features scores n =
     map (\<lambda>i. features ! i) (py_take n (rev (asort scores)))"

definition fit ::
  "(real list \<Rightarrow> nat list) \<Rightarrow> dtype \<Rightarrow> stir \<Rightarrow> matrix \<Rightarrow> int list \<Rightarrow> string list option \<Rightarrow> nat
   \<Rightarrow> (error + unit) \<times> stir" where
  "fit asort dt self X0 y0 names0 k =
     (let features = generate_features X0 in
      case check_input X0 y0 names0 of
        Inl e \<Rightarrow> (Inl e, self)
      | Inr (X, y, names) \<Rightarrow>
          (let self1 = self\<lparr>feature_names := Some (zip features names)\<rparr> in
           case compute_scores asort dt X y k of
             Inl e \<Rightarrow> (Inl e, self1)
           | Inr scores \<Rightarrow>
               (Inr (),
                self1\<lparr>feature_scores := Some scores,
                      selected_features :=
                        Some (select_features asort features scores (n_features_to_keep self))\<rparr>)))"

subsection \<open>\<open>transform\<close> and \<open>fit_transform\<close>\<close>

text \<open>\<open>X[:, idx]\<close>: the columns of \<open>X\<close> at the indices \<open>idx\<close>, in their order.\<close>

definition take_columns :: "matrix \<Rightarrow> nat list \<Rightarrow> error + matrix" where
  "take_columns X idx =
     (if \<forall>j\<in>set idx. j < shape1 X then Inr (map (\<lambda>row. map (\<lambda>j. row ! j) idx) X)
      else Inl IndexError)"

definition transform :: "stir \<Rightarrow> matrix \<Rightarrow> (error + matrix) \<times> stir" where
  "transform self X =
     (case selected_features self of
        None \<Rightarrow> (Inl (AttributeError ''selected_features''), self)
      | Some sel \<Rightarrow> (take_columns X sel, self))"

definition fit_transform ::
  "(real list \<Rightarrow> nat list) \<Rightarrow> dtype \<Rightarrow> stir \<Rightarrow> matrix \<Rightarrow> int list \<Rightarrow> string list option \<Rightarrow> nat
   \<Rightarrow> (error + matrix) \<times> stir" where
  "fit_transform asort dt self X y names k =
     (case fit asort dt self X y names k of
        (Inl e, self') \<Rightarrow> (Inl e, self')
      | (Inr u, self') \<Rightarrow> transform self' X)"

subsection \<open>Auxiliary definitions\<close>

text \<open>
  An entry that a dtype can hold: any number in float64, an integer of the range of the
  type otherwise.
\<close>

fun valid_entry :: "dtype \<Rightarrow> real \<Rightarrow> bool" where
  "valid_entry Float64 x = True"
| "valid_entry (UnsignedInt w) x = (x \<in> \<int> \<and> 0 \<le> x \<and> x < 2 ^ w)"
| "valid_entry (SignedInt w) x = (0 < w \<and> x \<in> \<int> \<and> - (2 ^ (w - 1)) \<le> x \<and> x < 2 ^ (w - 1))"

definition valid_array :: "dtype \<Rightarrow> matrix \<Rightarrow> bool" where
  "valid_array dt X = (\<forall>row\<in>set X. \<forall>x\<in>set row. valid_entry dt x)"

text \<open>
  The two lists that one pass of the loop of \<open>find_neighbors\<close> adds, in closed form, and
  the precondition on the labels: every class has at least \<open>k + 1\<close> members, and at least
  \<open>k\<close> samples carry another label.
\<close>

definition k_nearest_hits ::
  "(real list \<Rightarrow> nat list) \<Rightarrow> matrix \<Rightarrow> int list \<Rightarrow> nat \<Rightarrow> nat \<Rightarrow> nat list" where
  "k_nearest_hits asort D y k i =
     take k (drop 1 (filter (\<lambda>j. y ! j = y ! hd (asort (D ! i))) (asort (D ! i))))"

definition k_nearest_misses ::
  "(real list \<Rightarrow> nat list) \<Rightarrow> matrix \<Rightarrow> int list \<Rightarrow> nat \<Rightarrow> nat \<Rightarrow> nat list" where
  "k_nearest_misses asort D y k i =
     take k (filter (\<lambda>j. y ! j \<noteq> y ! hd (asort (D ! i))) (asort (D ! i)))"

definition neighbor_precondition :: "int list \<Rightarrow> nat \<Rightarrow> bool" where
  "neighbor_precondition y k =
     (\<forall>c\<in>set y. k + 1 \<le> count_list y c \<and> k \<le> length y - count_list y c)"

text \<open>
  The score as the specification words it: \<open>mu\<close> is the sum over the (sample, neighbour)
  pairs of \<open>|X[sample,f] - X[neighbour,f]| / range_f\<close>, divided by the number of samples,
  and the score is \<open>(mu_miss - mu_hit) / n_samples * 1000\<close>.
\<close>

definition spec_mu :: "matrix \<Rightarrow> (nat \<times> nat) list \<Rightarrow> real \<Rightarrow> nat \<Rightarrow> real" where
  "spec_mu X pairs range_f f =
     sum_list (map (\<lambda>p. \<bar>X ! fst p ! f - X ! snd p ! f\<bar> / range_f) pairs) / real (length X)"

definition spec_score ::
  "matrix \<Rightarrow> (nat \<times> nat) list \<Rightarrow> (nat \<times> nat) list \<Rightarrow> real \<Rightarrow> nat \<Rightarrow> real" where
  "spec_score X hit_pairs miss_pairs range_f f =
     (spec_mu X miss_pairs range_f f - spec_mu X hit_pairs range_f f) / real (length X) * 1000"

section \<open>Properties\<close>

subsection \<open>Lists\<close>

lemma those_map_Some:
  "(\<And>x. x \<in> set xs \<Longrightarrow> f x = Some (g x)) \<Longrightarrow> those (map f xs) = Some (map g xs)"
  by (induction xs) auto

lemma map2_map_map: "map2 f (map g xs) (map h xs) = map (\<lambda>x. f (g x) (h x)) xs"
  by (induction xs) auto

lemma fold_update_upt:
  "m \<le> n \<Longrightarrow> fold (\<lambda>i w. w[i := g i]) [0..<m] (replicate n z) = map g [0..<m] @ replicate (n - m) z"
proof (induction m)
  case 0
  then show ?case by simp
next
  case (Suc m)
  then have "fold (\<lambda>i w. w[i := g i]) [0..<Suc m] (replicate n z)
      = (map g [0..<m] @ replicate (n - m) z)[m := g m]"
    by simp
  also have "\<dots> = map g [0..<m] @ (replicate (n - m) z)[0 := g m]"
    by (simp add: list_update_append)
  also have "replicate (n - m) z = z # replicate (n - Suc m) z"
    using Suc.prems by (cases "n - m") auto
  finally show ?case by simp
qed

lemma length_filter_nth_upt:
  "length (filter (\<lambda>j. P (ys ! j)) [0..<length ys]) = length (filter P ys)"
proof -
  have "length (filter P (map (\<lambda>j. ys ! j) [0..<length ys])) = length (filter P ys)"
    by (simp only: map_nth)
  then show ?thesis by (simp add: filter_map comp_def)
qed

lemma length_concat_const:
  "(\<And>x. x \<in> set xs \<Longrightarrow> length (f x) = k) \<Longrightarrow> length (concat (map f xs)) = k * length xs"
  by (induction xs) auto

lemma filter_two_sorted:
  assumes "sorted (map f xs)" and "distinct xs" and "set (filter P xs) = {a, b}"
    and "f a < f b"
  shows "filter P xs = [a, b]"
proof -
  have d: "distinct (filter P xs)" using assms(2) by simp
  have s: "sorted (map f (filter P xs))"
    using assms(1) by (simp add: sorted_map sorted_wrt_filter)
  from assms(4) have ab: "a \<noteq> b" by auto
  from d assms(3) ab have "length (filter P xs) = 2"
    using distinct_card[of "filter P xs"] by simp
  then obtain u v where uv: "filter P xs = [u, v]"
    by (cases "filter P xs"; cases "tl (filter P xs)") auto
  with assms(3) d have "(u = a \<and> v = b) \<or> (u = b \<and> v = a)"
    by (auto simp: doubleton_eq_iff)
  moreover from s uv have "f u \<le> f v" by simp
  ultimately show ?thesis using assms(4) uv by auto
qed

subsection \<open>The contract of \<open>np.argsort\<close>\<close>

lemma set_argsort: "argsort_ok asort \<Longrightarrow> set (asort v) = {0..<length v}"
  by (simp add: argsort_ok_def)

lemma distinct_argsort: "argsort_ok asort \<Longrightarrow> distinct (asort v)"
  by (simp add: argsort_ok_def)

lemma sorted_argsort: "argsort_ok asort \<Longrightarrow> sorted (map (\<lambda>j. v ! j) (asort v))"
  by (simp add: argsort_ok_def)

lemma length_argsort:
  assumes "argsort_ok asort"
  shows "length (asort v) = length v"
proof -
  have "length (asort v) = card (set (asort v))"
    using distinct_argsort[OF assms, of v] by (simp add: distinct_card)
  then show ?thesis by (simp add: set_argsort[OF assms])
qed

lemma length_filter_argsort:
  assumes "argsort_ok asort"
  shows "length (filter P (asort v)) = length (filter P [0..<length v])"
proof -
  have "length (filter P (asort v)) = card ({x. P x} \<inter> set (asort v))"
    using distinct_argsort[OF assms, of v] by (simp add: distinct_length_filter Int_commute)
  also have "\<dots> = card ({x. P x} \<inter> set [0..<length v])"
    by (simp add: set_argsort[OF assms])
  also have "\<dots> = length (filter P [0..<length v])"
    by (simp add: distinct_length_filter Int_commute)
  finally show ?thesis .
qed

lemma argsort_nth_less:
  "argsort_ok asort \<Longrightarrow> p < length v \<Longrightarrow> asort v ! p < length v"
  using set_argsort[of asort v] nth_mem[of p "asort v"] by (simp add: length_argsort)

lemma argsort_nth_mono:
  assumes "argsort_ok asort" and "p \<le> q" and "q < length v"
  shows "v ! (asort v ! p) \<le> v ! (asort v ! q)"
  using sorted_argsort[OF assms(1), of v] assms(2,3)
  by (simp add: sorted_iff_nth_mono length_argsort[OF assms(1)])

lemma argsort_hd:
  assumes "argsort_ok asort" and "i < length v" and "v ! i = 0" and "\<forall>j<length v. 0 \<le> v ! j"
  shows "v ! hd (asort v) = 0"
proof -
  let ?a = "asort v"
  have len: "length ?a = length v" by (rule length_argsort[OF assms(1)])
  with assms(2) have ne: "?a \<noteq> []" by (cases ?a) auto
  then have hd0: "hd ?a = ?a ! 0" by (simp add: hd_conv_nth)
  have "i \<in> set ?a" using assms(2) by (simp add: set_argsort[OF assms(1)])
  then obtain p where p: "p < length v" "?a ! p = i"
    by (auto simp: in_set_conv_nth len)
  have "0 < length v" using assms(2) by linarith
  then have lt: "?a ! 0 < length v" by (rule argsort_nth_less[OF assms(1)])
  have "v ! (?a ! 0) \<le> v ! (?a ! p)"
    by (rule argsort_nth_mono[OF assms(1) _ p(1)]) simp
  moreover have "0 \<le> v ! (?a ! 0)" using assms(4) lt by simp
  ultimately show ?thesis using p(2) assms(3) by (simp add: hd0)
qed

lemma insertion_argsort_ok: "argsort_ok insertion_argsort"
  by (simp add: argsort_ok_def insertion_argsort_def)

lemma argsort_unique:
  assumes "argsort_ok asort" and "argsort_ok asort'" and "distinct v"
  shows "asort v = asort' v"
proof -
  have inj: "inj_on (\<lambda>j. v ! j) {0..<length v}"
    using assms(3) by (auto simp: inj_on_def nth_eq_iff_index_eq)
  have d: "distinct (map (\<lambda>j. v ! j) (asort v))" "distinct (map (\<lambda>j. v ! j) (asort' v))"
    using inj distinct_argsort[OF assms(1), of v] distinct_argsort[OF assms(2), of v]
    by (simp_all add: distinct_map set_argsort[OF assms(1)] set_argsort[OF assms(2)])
  have s: "set (map (\<lambda>j. v ! j) (asort v)) = set (map (\<lambda>j. v ! j) (asort' v))"
    by (simp add: set_argsort[OF assms(1)] set_argsort[OF assms(2)])
  have "map (\<lambda>j. v ! j) (asort v) = map (\<lambda>j. v ! j) (asort' v)"
    by (rule sorted_distinct_set_unique[OF sorted_argsort[OF assms(1)] d(1)
          sorted_argsort[OF assms(2)] d(2) s])
  moreover have "inj_on (\<lambda>j. v ! j) (set (asort v) \<union> set (asort' v))"
    using inj by (simp add: set_argsort[OF assms(1)] set_argsort[OF assms(2)])
  ultimately show ?thesis by (rule map_inj_on)
qed

lemma argsort_insertion:
  "argsort_ok asort \<Longrightarrow> distinct v \<Longrightarrow> asort v = insertion_argsort v"
  by (rule argsort_unique[OF _ insertion_argsort_ok])

subsection \<open>Evaluation on concrete inputs\<close>

lemmas stir_eval =
  shape1_def column_def np_max_axis0_def np_min_axis0_def mask_assign_eq_def np_divide_def
  np_divide_vec_def euclidean_def pairwise_distances_def insertion_argsort_def py_take_def
  column_stack_def np_subtract_def np_abs_def
  generate_features_def check_input_def max_diff_def max_diff_vec_def X_centered_def X_scaled_def
  distance_matrix_def sample_neighbors_def find_neighbors_def range_vec_def feature_weight_def
  compute_weights_def compute_scores_def select_features_def fit_def take_columns_def
  transform_def fit_transform_def STIR_init_def upt_rec power2_eq_square floor_minus

subsection \<open>Integer dtypes\<close>

lemma wrap_zero: "valid_entry dt a \<Longrightarrow> wrap dt 0 = 0"
proof (cases dt)
  case Float64
  then show ?thesis by simp
next
  case (SignedInt w)
  assume "valid_entry dt a"
  with SignedInt have w: "0 < w" by simp
  then have "(2::int) ^ w = 2 * 2 ^ (w - 1)" by (cases w) auto
  then have "(2::int) ^ (w - 1) mod 2 ^ w = 2 ^ (w - 1)" by simp
  with SignedInt show ?thesis by simp
next
  case (UnsignedInt w)
  then show ?thesis by simp
qed

lemma int_mod_zero_small:
  fixes d m :: int
  assumes "d mod m = 0" and "- m < d" and "d < m"
  shows "d = 0"
proof -
  from assms(1) have "m dvd d" by (simp add: dvd_eq_mod_eq_0)
  then obtain c where c: "d = m * c" by (auto simp: dvd_def)
  from assms(2,3) have m: "0 < m" by linarith
  from c assms(2,3) have "m * (- 1) < m * c" "m * c < m * 1" by simp_all
  with m have "- 1 < c" "c < 1" by (simp_all only: mult_less_cancel_left_pos)
  then have "c = 0" by linarith
  with c show ?thesis by simp
qed

lemma neg_pow_le_of_int: "(- (2 ^ k) \<le> real_of_int z) = (- (2 ^ k) \<le> z)"
proof -
  have "real_of_int (- (2 ^ k)) = - (2 ^ k)" by simp
  then show ?thesis by (metis of_int_le_iff)
qed

lemma wrap_diff_zero:
  assumes "valid_entry dt a" and "valid_entry dt b" and "wrap dt (a - b) = 0"
  shows "a = b"
proof (cases dt)
  case Float64
  with assms(3) show ?thesis by simp
next
  case (UnsignedInt w)
  with assms(1,2) obtain m n :: int where
    mn: "a = of_int m" "b = of_int n" "0 \<le> m" "m < 2 ^ w" "0 \<le> n" "n < 2 ^ w"
    by (auto elim!: Ints_cases)
  from assms(3) UnsignedInt mn have "(m - n) mod 2 ^ w = 0"
    by (simp flip: of_int_diff)
  moreover from mn have "- (2 ^ w) < m - n" "m - n < 2 ^ w" by linarith+
  ultimately have "m - n = 0" by (rule int_mod_zero_small)
  with mn show ?thesis by simp
next
  case (SignedInt w)
  with assms(1,2) obtain m n :: int where
    mn: "a = of_int m" "b = of_int n" "- (2 ^ (w - 1)) \<le> m" "m < 2 ^ (w - 1)"
        "- (2 ^ (w - 1)) \<le> n" "n < 2 ^ (w - 1)" and w: "0 < w"
    by (auto elim!: Ints_cases simp: neg_pow_le_of_int)
  from w have p: "(2::int) ^ w = 2 * 2 ^ (w - 1)" by (cases w) auto
  let ?h = "(2::int) ^ (w - 1)"
  from assms(3) SignedInt mn have "(m - n + ?h) mod 2 ^ w = ?h"
    by (simp flip: of_int_diff)
  also have "?h = ?h mod 2 ^ w" using p by simp
  finally have "(m - n + ?h) mod 2 ^ w = ?h mod 2 ^ w" .
  then have "(m - n + ?h - ?h) mod 2 ^ w = (?h - ?h) mod 2 ^ w"
    by (rule mod_diff_cong) simp
  then have "(m - n) mod 2 ^ w = 0" by simp
  moreover from mn p have "- (2 ^ w) < m - n" "m - n < 2 ^ w" by linarith+
  ultimately have "m - n = 0" by (rule int_mod_zero_small)
  with mn show ?thesis by simp
qed

lemma valid_arrayD:
  "valid_array dt X \<Longrightarrow> row \<in> set X \<Longrightarrow> j < length row \<Longrightarrow> valid_entry dt (row ! j)"
  by (auto simp: valid_array_def)

lemma valid_array_Float64: "valid_array Float64 X"
  by (simp add: valid_array_def)

subsection \<open>Ranges and the distance matrix\<close>

lemma max_diff_empty: "max_diff dt [] = Inl ZeroSizeReduction"
  by (simp add: max_diff_def np_max_axis0_def)

lemma max_diff_Inr:
  "X \<noteq> [] \<Longrightarrow>
   max_diff dt X
     = Inr (map (\<lambda>j. np_subtract dt (Max (set (column X j))) (Min (set (column X j))))
                [0..<shape1 X])"
  by (simp add: max_diff_def np_max_axis0_def np_min_axis0_def map2_map_map)

lemma zero_notin_guard: "c \<noteq> 0 \<Longrightarrow> 0 \<notin> set (mask_assign_eq 0 c d)"
  by (auto simp: mask_assign_eq_def)

lemma length_guard: "length (mask_assign_eq a c d) = length d"
  by (simp add: mask_assign_eq_def)

lemma max_diff_vec_cases:
  "(X = [] \<and> max_diff_vec dt X = Inl ZeroSizeReduction)
   \<or> (X \<noteq> [] \<and> (\<exists>v. max_diff_vec dt X = Inr v \<and> length v = shape1 X \<and> 0 \<notin> set v))"
proof (cases "X = []")
  case True
  then show ?thesis by (simp add: max_diff_vec_def max_diff_empty)
next
  case False
  then show ?thesis
    by (simp add: max_diff_vec_def max_diff_Inr zero_notin_guard length_guard)
qed

lemma np_divide_vec_Some: "0 \<notin> set v \<Longrightarrow> np_divide_vec row v = Some (map2 (/) row v)"
  unfolding np_divide_vec_def
  by (rule those_map_Some) (auto dest: set_zip_rightD simp: np_divide_def)

lemma one_over_Some: "0 \<notin> set v \<Longrightarrow> those (map (np_divide 1) v) = Some (map (\<lambda>r. 1 / r) v)"
  by (rule those_map_Some) (auto simp: np_divide_def)

lemma X_scaled_Inr:
  assumes "max_diff_vec dt X = Inr v" "np_min_axis0 X = Inr mn" "0 \<notin> set v"
  shows "X_scaled dt X = Inr (map (\<lambda>row. map2 (/) (map2 (np_subtract dt) row mn) v) X)"
proof -
  have "those (map (\<lambda>row. np_divide_vec row v) (X_centered dt X mn))
        = Some (map (\<lambda>row. map2 (/) row v) (X_centered dt X mn))"
    by (rule those_map_Some) (simp add: np_divide_vec_Some assms(3))
  then show ?thesis
    by (simp add: X_scaled_def assms(1,2) X_centered_def comp_def)
qed

lemma X_scaled_cases:
  "(X = [] \<and> X_scaled dt X = Inl ZeroSizeReduction)
   \<or> (X \<noteq> [] \<and> (\<exists>Xs. X_scaled dt X = Inr Xs \<and> length Xs = length X))"
proof (cases "X = []")
  case True
  then show ?thesis by (simp add: X_scaled_def max_diff_vec_def max_diff_empty)
next
  case False
  then obtain v where v: "max_diff_vec dt X = Inr v" "0 \<notin> set v"
    using max_diff_vec_cases[of X dt] by auto
  from False obtain mn where mn: "np_min_axis0 X = Inr mn"
    by (simp add: np_min_axis0_def)
  from X_scaled_Inr[OF v(1) mn v(2)] False show ?thesis by simp
qed

lemma distance_matrix_cases:
  "(X = [] \<and> distance_matrix dt X = Inl ZeroSizeReduction)
   \<or> (X \<noteq> [] \<and> (\<exists>Xs. X_scaled dt X = Inr Xs \<and> length Xs = length X
                    \<and> distance_matrix dt X = Inr (pairwise_distances Xs)))"
  using X_scaled_cases[of X dt] by (auto simp: distance_matrix_def)

lemma euclidean_self: "euclidean a a = 0"
proof -
  have "sum_list (map2 (\<lambda>x y. (x - y)\<^sup>2) a a) = 0"
    by (induction a) auto
  then show ?thesis by (simp add: euclidean_def)
qed

lemma euclidean_nonneg: "0 \<le> euclidean a b"
proof -
  have "0 \<le> sum_list (map2 (\<lambda>x y. (x - y)\<^sup>2) a b)"
    by (rule sum_list_nonneg) auto
  then show ?thesis by (simp add: euclidean_def)
qed

lemma length_pairwise_distances: "length (pairwise_distances Xs) = length Xs"
  by (simp add: pairwise_distances_def)

lemma pairwise_distances_row:
  "i < length Xs \<Longrightarrow> pairwise_distances Xs ! i = map (\<lambda>b. euclidean (Xs ! i) b) Xs"
  by (simp add: pairwise_distances_def)

lemma distance_matrix_shape:
  assumes "distance_matrix dt X = Inr D" "i < length X"
  shows "length D = length X" and "length (D ! i) = length X"
    and "D ! i ! i = 0" and "\<forall>j<length X. 0 \<le> D ! i ! j"
proof -
  from assms(1) distance_matrix_cases[of X dt] obtain Xs
    where Xs: "length Xs = length X" "D = pairwise_distances Xs"
    by auto
  show "length D = length X" by (simp add: Xs length_pairwise_distances)
  show "length (D ! i) = length X"
    using assms(2) by (simp add: Xs pairwise_distances_row)
  show "D ! i ! i = 0"
    using assms(2) by (simp add: Xs pairwise_distances_row euclidean_self)
  show "\<forall>j<length X. 0 \<le> D ! i ! j"
    using assms(2) by (simp add: Xs pairwise_distances_row euclidean_nonneg)
qed

subsection \<open>The neighbour lists\<close>

lemma sample_neighbors_Inr:
  assumes "asort (D ! i) \<noteq> []"
  shows "sample_neighbors asort D y k i
         = Inr (k_nearest_hits asort D y k i, k_nearest_misses asort D y k i)"
proof -
  let ?a = "asort (D ! i)"
  from assms obtain j0 rest where a: "?a = j0 # rest" by (cases ?a) auto
  have fh: "map fst (filter (\<lambda>row. snd row = c) (map (\<lambda>j. (j, y ! j)) xs))
            = filter (\<lambda>j. y ! j = c) xs" for c and xs :: "nat list"
    by (induction xs) auto
  have fm: "map fst (filter (\<lambda>row. snd row \<noteq> c) (map (\<lambda>j. (j, y ! j)) xs))
            = filter (\<lambda>j. y ! j \<noteq> c) xs" for c and xs :: "nat list"
    by (induction xs) auto
  have 1: "map fst (take k (drop 1 (filter (\<lambda>row. snd row = y ! j0) (map (\<lambda>j. (j, y ! j)) ?a))))
           = take k (drop 1 (filter (\<lambda>j. y ! j = y ! j0) ?a))"
    by (simp only: take_map[symmetric] drop_map[symmetric] fh)
  have 2: "map fst (take k (filter (\<lambda>row. snd row \<noteq> y ! j0) (map (\<lambda>j. (j, y ! j)) ?a)))
           = take k (filter (\<lambda>j. y ! j \<noteq> y ! j0) ?a)"
    by (simp only: take_map[symmetric] fm)
  have "sample_neighbors asort D y k i
      = Inr (map fst (take k (drop 1 (filter (\<lambda>row. snd row = y ! j0) (map (\<lambda>j. (j, y ! j)) ?a)))),
             map fst (take k (filter (\<lambda>row. snd row \<noteq> y ! j0) (map (\<lambda>j. (j, y ! j)) ?a))))"
    unfolding sample_neighbors_def Let_def by (simp add: a)
  also have "\<dots> = Inr (k_nearest_hits asort D y k i, k_nearest_misses asort D y k i)"
    unfolding 1 2 by (simp add: k_nearest_hits_def k_nearest_misses_def a)
  finally show ?thesis .
qed

lemma neighbors_loop_Inr:
  "(\<And>i. i \<in> set js \<Longrightarrow> asort (D ! i) \<noteq> []) \<Longrightarrow>
   neighbors_loop asort D y k js (indexes, hits, misses)
     = Inr (indexes @ concat (map (replicate k) js),
            hits @ concat (map (k_nearest_hits asort D y k) js),
            misses @ concat (map (k_nearest_misses asort D y k) js))"
  by (induction js arbitrary: indexes hits misses) (simp_all add: sample_neighbors_Inr)

lemma set_k_nearest_hits:
  assumes "argsort_ok asort"
  shows "set (k_nearest_hits asort D y k i) \<subseteq> {0..<length (D ! i)}"
proof -
  have "set (k_nearest_hits asort D y k i) \<subseteq> set (asort (D ! i))"
    unfolding k_nearest_hits_def
    using set_take_subset set_drop_subset filter_is_subset by (rule order_trans[OF order_trans])
  then show ?thesis by (simp add: set_argsort[OF assms])
qed

lemma set_k_nearest_misses:
  assumes "argsort_ok asort"
  shows "set (k_nearest_misses asort D y k i) \<subseteq> {0..<length (D ! i)}"
proof -
  have "set (k_nearest_misses asort D y k i) \<subseteq> set (asort (D ! i))"
    unfolding k_nearest_misses_def
    using set_take_subset filter_is_subset by (rule order_trans)
  then show ?thesis by (simp add: set_argsort[OF assms])
qed

lemma length_k_nearest:
  assumes "argsort_ok asort" "length (D ! i) = length y" "y \<noteq> []" "neighbor_precondition y k"
  shows "length (k_nearest_hits asort D y k i) = k"
    and "length (k_nearest_misses asort D y k i) = k"
proof -
  let ?a = "asort (D ! i)"
  let ?c = "y ! hd ?a"
  have la: "length ?a = length y" using length_argsort[OF assms(1), of "D ! i"] assms(2) by simp
  with assms(3) have "?a \<noteq> []" by (cases ?a) auto
  then have "hd ?a \<in> set ?a" by simp
  then have "hd ?a < length y" by (simp add: set_argsort[OF assms(1)] assms(2))
  then have c: "?c \<in> set y" by simp
  have cnt: "count_list zs c = length (filter (\<lambda>x. x = c) zs)" for c :: int and zs
    by (induction zs) auto
  have eq: "length (filter (\<lambda>j. y ! j = ?c) ?a) = count_list y ?c"
    using length_filter_nth_upt[of "\<lambda>x. x = ?c" y]
    by (simp add: length_filter_argsort[OF assms(1)] assms(2) cnt)
  have "length (filter (\<lambda>j. y ! j = ?c) ?a) + length (filter (\<lambda>j. y ! j \<noteq> ?c) ?a) = length ?a"
    by (rule sum_length_filter_compl)
  then have ne: "length (filter (\<lambda>j. y ! j \<noteq> ?c) ?a) = length y - count_list y ?c"
    using eq by (simp add: la)
  from assms(4) c have "k + 1 \<le> count_list y ?c" "k \<le> length y - count_list y ?c"
    by (auto simp: neighbor_precondition_def)
  then show "length (k_nearest_hits asort D y k i) = k"
    "length (k_nearest_misses asort D y k i) = k"
    using eq ne by (simp_all add: k_nearest_hits_def k_nearest_misses_def)
qed

subsection \<open>\<open>find_neighbors\<close>\<close>

lemma find_neighbors_empty: "find_neighbors asort dt [] y k = Inl ZeroSizeReduction"
  using distance_matrix_cases[of "[]" dt] by (simp add: find_neighbors_def)

lemma find_neighbors_nonempty:
  assumes "argsort_ok asort" "X \<noteq> []"
  shows "\<exists>D. distance_matrix dt X = Inr D \<and>
     find_neighbors asort dt X y k =
       (let indexes = concat (map (replicate k) [0..<length X]);
            hits = concat (map (k_nearest_hits asort D y k) [0..<length X]);
            misses = concat (map (k_nearest_misses asort D y k) [0..<length X])
        in if length hits = length indexes \<and> length misses = length indexes
           then Inr (zip indexes hits, zip indexes misses) else Inl ShapeMismatch)"
proof -
  from assms(2) distance_matrix_cases[of X dt] obtain D where D: "distance_matrix dt X = Inr D"
    by auto
  have ne: "asort (D ! i) \<noteq> []" if "i \<in> set [0..<length X]" for i
  proof -
    from that have "length (D ! i) = length X" by (simp add: distance_matrix_shape(2)[OF D])
    with assms(2) have "length (asort (D ! i)) \<noteq> 0" by (simp add: length_argsort[OF assms(1)])
    then show ?thesis by auto
  qed
  have loop: "neighbors_loop asort D y k [0..<length X] ([], [], [])
      = Inr (concat (map (replicate k) [0..<length X]),
             concat (map (k_nearest_hits asort D y k) [0..<length X]),
             concat (map (k_nearest_misses asort D y k) [0..<length X]))"
    using neighbors_loop_Inr[of "[0..<length X]" asort D y k "[]" "[]" "[]"] ne by simp
  show ?thesis
    by (rule exI[of _ D]) (auto simp: find_neighbors_def D loop column_stack_def Let_def)
qed

lemma length_indexes: "length (concat (map (replicate k) js)) = k * length js"
  by (rule length_concat_const) simp

lemma find_neighbors_precondition:
  assumes "argsort_ok asort" "X \<noteq> []" "length y = length X" "neighbor_precondition y k"
  shows "\<exists>D. distance_matrix dt X = Inr D \<and>
     length (concat (map (k_nearest_hits asort D y k) [0..<length X])) = k * length X \<and>
     length (concat (map (k_nearest_misses asort D y k) [0..<length X])) = k * length X \<and>
     find_neighbors asort dt X y k =
       Inr (zip (concat (map (replicate k) [0..<length X]))
                (concat (map (k_nearest_hits asort D y k) [0..<length X])),
            zip (concat (map (replicate k) [0..<length X]))
                (concat (map (k_nearest_misses asort D y k) [0..<length X])))"
proof -
  from find_neighbors_nonempty[OF assms(1,2), of dt y k] obtain D where
    D: "distance_matrix dt X = Inr D" and
    fn: "find_neighbors asort dt X y k =
       (let indexes = concat (map (replicate k) [0..<length X]);
            hits = concat (map (k_nearest_hits asort D y k) [0..<length X]);
            misses = concat (map (k_nearest_misses asort D y k) [0..<length X])
        in if length hits = length indexes \<and> length misses = length indexes
           then Inr (zip indexes hits, zip indexes misses) else Inl ShapeMismatch)"
    by blast
  have y: "y \<noteq> []" using assms(2,3) by auto
  have len: "length (D ! i) = length y" if "i \<in> set [0..<length X]" for i
    using distance_matrix_shape(2)[OF D, of i] that assms(3) by simp
  have h: "length (concat (map (k_nearest_hits asort D y k) [0..<length X]))
           = k * length [0..<length X]"
    by (rule length_concat_const) (rule length_k_nearest(1)[OF assms(1) len y assms(4)])
  have m: "length (concat (map (k_nearest_misses asort D y k) [0..<length X]))
           = k * length [0..<length X]"
    by (rule length_concat_const) (rule length_k_nearest(2)[OF assms(1) len y assms(4)])
  show ?thesis
    using h m by (intro exI[of _ D]) (simp add: D fn Let_def length_indexes)
qed

lemma find_neighbors_errors:
  assumes "argsort_ok asort" "find_neighbors asort dt X y k = Inl e"
  shows "e = ZeroSizeReduction \<or> e = ShapeMismatch"
proof (cases "X = []")
  case True
  with assms(2) show ?thesis by (simp add: find_neighbors_empty)
next
  case False
  from find_neighbors_nonempty[OF assms(1) False, of dt y k] assms(2) show ?thesis
    by (auto simp: Let_def split: if_splits)
qed

lemma find_neighbors_bounds:
  assumes "argsort_ok asort" "find_neighbors asort dt X y k = Inr (hit_pairs, miss_pairs)"
  shows "\<forall>p\<in>set hit_pairs \<union> set miss_pairs. fst p < length X \<and> snd p < length X"
proof -
  from assms(2) have ne: "X \<noteq> []" by (auto simp: find_neighbors_empty)
  from find_neighbors_nonempty[OF assms(1) ne, of dt y k] assms(2) obtain D where
    D: "distance_matrix dt X = Inr D" and
    hp: "hit_pairs = zip (concat (map (replicate k) [0..<length X]))
                         (concat (map (k_nearest_hits asort D y k) [0..<length X]))" and
    mp: "miss_pairs = zip (concat (map (replicate k) [0..<length X]))
                          (concat (map (k_nearest_misses asort D y k) [0..<length X]))"
    by (auto simp: Let_def split: if_splits)
  have i: "set (concat (map (replicate k) [0..<length X])) \<subseteq> {0..<length X}"
    by auto
  have len: "length (D ! i) = length X" if "i < length X" for i
    using distance_matrix_shape(2)[OF D that] .
  have h: "set (concat (map (k_nearest_hits asort D y k) [0..<length X])) \<subseteq> {0..<length X}"
    using set_k_nearest_hits[OF assms(1), of D y k] len by fastforce
  have m: "set (concat (map (k_nearest_misses asort D y k) [0..<length X])) \<subseteq> {0..<length X}"
    using set_k_nearest_misses[OF assms(1), of D y k] len by fastforce
  show ?thesis
  proof
    fix p assume "p \<in> set hit_pairs \<union> set miss_pairs"
    then have "fst p \<in> set (concat (map (replicate k) [0..<length X]))
        \<and> (snd p \<in> set (concat (map (k_nearest_hits asort D y k) [0..<length X]))
           \<or> snd p \<in> set (concat (map (k_nearest_misses asort D y k) [0..<length X])))"
      unfolding hp mp by (cases p) (auto dest: set_zip_leftD set_zip_rightD)
    with i h m show "fst p < length X \<and> snd p < length X" by auto
  qed
qed

subsection \<open>\<open>fit\<close>\<close>

lemma range_vec_cases:
  "(X = [] \<and> range_vec dt X = Inl ZeroSizeReduction)
   \<or> (X \<noteq> [] \<and> (\<exists>v. range_vec dt X = Inr v \<and> length v = shape1 X \<and> 0 \<notin> set v))"
proof (cases "X = []")
  case True
  then show ?thesis by (simp add: range_vec_def max_diff_empty)
next
  case False
  then show ?thesis
    by (simp add: range_vec_def max_diff_Inr zero_notin_guard length_guard)
qed

lemma compute_weights_eq:
  "compute_weights dt X hp mp r n (generate_features X)
   = map (feature_weight dt X hp mp r n) [0..<shape1 X]"
  by (simp add: compute_weights_def generate_features_def fold_update_upt)

lemma compute_scores_empty: "compute_scores asort dt [] y k = Inl ZeroSizeReduction"
  by (simp add: compute_scores_def find_neighbors_empty)

lemma compute_scores_nonempty:
  assumes "X \<noteq> []"
  shows "\<exists>v. range_vec dt X = Inr v \<and> length v = shape1 X \<and> 0 \<notin> set v \<and>
     compute_scores asort dt X y k =
       (case find_neighbors asort dt X y k of
          Inl e \<Rightarrow> Inl e
        | Inr (hp, mp) \<Rightarrow>
            Inr (map (\<lambda>f. feature_weight dt X hp mp (map (\<lambda>r. 1 / r) v) (length X) f
                           * (1 / real (length X)) * 1000) [0..<shape1 X]))"
proof -
  from assms range_vec_cases[of X dt] obtain v where
    v: "range_vec dt X = Inr v" "length v = shape1 X" "0 \<notin> set v" by auto
  have "compute_scores asort dt X y k =
       (case find_neighbors asort dt X y k of
          Inl e \<Rightarrow> Inl e
        | Inr (hp, mp) \<Rightarrow>
            Inr (map (\<lambda>f. feature_weight dt X hp mp (map (\<lambda>r. 1 / r) v) (length X) f
                           * (1 / real (length X)) * 1000) [0..<shape1 X]))"
    using assms
    by (simp add: compute_scores_def Let_def v(1) one_over_Some[OF v(3)] compute_weights_eq
             split: sum.split prod.split)
  with v show ?thesis by blast
qed

lemma compute_scores_Inr:
  assumes "compute_scores asort dt X y k = Inr scores"
  shows "\<exists>v hp mp. X \<noteq> [] \<and> range_vec dt X = Inr v \<and> length v = shape1 X \<and> 0 \<notin> set v
      \<and> find_neighbors asort dt X y k = Inr (hp, mp)
      \<and> scores = map (\<lambda>f. feature_weight dt X hp mp (map (\<lambda>r. 1 / r) v) (length X) f
                               * (1 / real (length X)) * 1000) [0..<shape1 X]"
proof -
  from assms have ne: "X \<noteq> []" by (auto simp: compute_scores_empty)
  from compute_scores_nonempty[OF ne, of dt asort y k] obtain v where
    v: "range_vec dt X = Inr v" "length v = shape1 X" "0 \<notin> set v" and
    c: "compute_scores asort dt X y k =
       (case find_neighbors asort dt X y k of
          Inl e \<Rightarrow> Inl e
        | Inr (hp, mp) \<Rightarrow>
            Inr (map (\<lambda>f. feature_weight dt X hp mp (map (\<lambda>r. 1 / r) v) (length X) f
                           * (1 / real (length X)) * 1000) [0..<shape1 X]))"
    by blast
  show ?thesis
  proof (cases "find_neighbors asort dt X y k")
    case (Inl e)
    with c assms show ?thesis by simp
  next
    case (Inr p)
    obtain hp mp where p: "p = (hp, mp)" by (cases p) auto
    from c assms Inr p have
      "scores = map (\<lambda>f. feature_weight dt X hp mp (map (\<lambda>r. 1 / r) v) (length X) f
                               * (1 / real (length X)) * 1000) [0..<shape1 X]"
      by simp
    with ne v Inr p show ?thesis by blast
  qed
qed

lemma compute_scores_length:
  "compute_scores asort dt X y k = Inr scores \<Longrightarrow> length scores = shape1 X"
  using compute_scores_Inr[of asort dt X y k scores] by auto

lemma compute_scores_errors:
  assumes "argsort_ok asort" "compute_scores asort dt X y k = Inl e"
  shows "e = ZeroSizeReduction \<or> e = ShapeMismatch"
proof (cases "X = []")
  case True
  with assms(2) show ?thesis by (simp add: compute_scores_empty)
next
  case False
  from compute_scores_nonempty[OF False, of dt asort y k] obtain v where
    c: "compute_scores asort dt X y k =
       (case find_neighbors asort dt X y k of
          Inl e \<Rightarrow> Inl e
        | Inr (hp, mp) \<Rightarrow>
            Inr (map (\<lambda>f. feature_weight dt X hp mp (map (\<lambda>r. 1 / r) v) (length X) f
                           * (1 / real (length X)) * 1000) [0..<shape1 X]))"
    by blast
  show ?thesis
  proof (cases "find_neighbors asort dt X y k")
    case (Inl e')
    with c assms(2) have "e' = e" by simp
    with Inl find_neighbors_errors[OF assms(1), of dt X y k e] show ?thesis by simp
  next
    case (Inr p)
    with c assms(2) show ?thesis by (cases p) simp
  qed
qed

lemma check_input_Inr:
  "check_input X y names = Inr (X', y', ns) \<Longrightarrow>
   X' = X \<and> y' = y \<and> length y = length X \<and> (\<forall>r\<in>set X. length r = shape1 X)"
  by (auto simp: check_input_def split: if_splits option.splits)

lemma check_input_errors: "check_input X y names = Inl e \<Longrightarrow> e = InvalidInput"
  by (auto simp: check_input_def split: if_splits option.splits)

lemma fit_unfold:
  "fit asort dt self X y names k =
     (case check_input X y names of
        Inl e \<Rightarrow> (Inl e, self)
      | Inr (X', y', ns) \<Rightarrow>
          (case compute_scores asort dt X y k of
             Inl e \<Rightarrow> (Inl e, self\<lparr>feature_names := Some (zip [0..<shape1 X] ns)\<rparr>)
           | Inr scores \<Rightarrow>
               (Inr (),
                self\<lparr>feature_names := Some (zip [0..<shape1 X] ns),
                     feature_scores := Some scores,
                     selected_features :=
                       Some (select_features asort [0..<shape1 X] scores
                               (n_features_to_keep self))\<rparr>)))"
proof (cases "check_input X y names")
  case (Inl e)
  then show ?thesis by (simp add: fit_def)
next
  case (Inr t)
  obtain X' y' ns where t: "t = (X', y', ns)" by (cases t) auto
  from Inr t check_input_Inr[of X y names X' y' ns] have "X' = X" "y' = y" by auto
  with Inr t show ?thesis
    by (simp add: fit_def Let_def generate_features_def split: sum.split)
qed

lemma fit_Inr:
  assumes "fit asort dt self X y names k = (Inr u, self')"
  shows "\<exists>ns scores. check_input X y names = Inr (X, y, ns)
      \<and> compute_scores asort dt X y k = Inr scores
      \<and> length scores = shape1 X
      \<and> self' = self\<lparr>feature_names := Some (zip [0..<shape1 X] ns),
                      feature_scores := Some scores,
                      selected_features :=
                        Some (select_features asort [0..<shape1 X] scores
                                (n_features_to_keep self))\<rparr>"
proof (cases "check_input X y names")
  case (Inl e)
  with assms show ?thesis by (simp add: fit_unfold)
next
  case (Inr t)
  obtain X' y' ns where t: "t = (X', y', ns)" by (cases t) auto
  from Inr t check_input_Inr[of X y names X' y' ns] have c: "check_input X y names = Inr (X, y, ns)"
    by simp
  show ?thesis
  proof (cases "compute_scores asort dt X y k")
    case (Inl e)
    with assms c show ?thesis by (simp add: fit_unfold)
  next
    case s: (Inr scores)
    with assms c have "self' = self\<lparr>feature_names := Some (zip [0..<shape1 X] ns),
                      feature_scores := Some scores,
                      selected_features :=
                        Some (select_features asort [0..<shape1 X] scores
                                (n_features_to_keep self))\<rparr>"
      by (simp add: fit_unfold)
    with c s compute_scores_length[OF s] show ?thesis by blast
  qed
qed

lemma fit_errors:
  assumes "argsort_ok asort" "fst (fit asort dt self X y names k) = Inl e"
  shows "e = InvalidInput \<or> e = ZeroSizeReduction \<or> e = ShapeMismatch"
proof (cases "check_input X y names")
  case (Inl e')
  with assms(2) have "e' = e" by (simp add: fit_unfold)
  with Inl check_input_errors[of X y names e] show ?thesis by simp
next
  case (Inr t)
  show ?thesis
  proof (cases "compute_scores asort dt X y k")
    case (Inl e')
    with assms(2) Inr have "e' = e" by (cases t) (simp add: fit_unfold)
    with Inl compute_scores_errors[OF assms(1), of dt X y k e] show ?thesis by simp
  next
    case s: (Inr scores)
    with assms(2) Inr show ?thesis by (cases t) (simp add: fit_unfold)
  qed
qed

lemma fit_no_division_failure:
  assumes "argsort_ok asort"
  shows "fst (fit asort dt self X y names k) \<noteq> Inl NonFinite
       \<and> fst (fit asort dt self X y names k) \<noteq> Inl ZeroDivisionError"
  using fit_errors[OF assms, of dt self X y names k NonFinite]
    fit_errors[OF assms, of dt self X y names k ZeroDivisionError]
  by auto

subsection \<open>The selection\<close>

lemma select_features_eq:
  assumes "argsort_ok asort" "length scores = n"
  shows "select_features asort [0..<n] scores m = py_take m (rev (asort scores))"
proof -
  have "set (py_take m (rev (asort scores))) \<subseteq> set (rev (asort scores))"
    by (auto simp: py_take_def dest: in_set_takeD)
  then have "\<forall>i\<in>set (py_take m (rev (asort scores))). i < n"
    using assms(2) by (auto simp: set_argsort[OF assms(1)])
  then have "map (\<lambda>i. [0..<n] ! i) (py_take m (rev (asort scores)))
             = map (\<lambda>i. i) (py_take m (rev (asort scores)))"
    by (intro map_cong) auto
  then show ?thesis by (simp add: select_features_def)
qed

lemma py_take_prefix: "\<exists>c. py_take m xs = take c xs"
  by (auto simp: py_take_def)

lemma length_py_take: "0 \<le> m \<Longrightarrow> int (length (py_take m xs)) = min m (int (length xs))"
  by (auto simp: py_take_def)

lemma py_take_all: "int (length xs) \<le> m \<Longrightarrow> py_take m xs = xs"
  by (auto simp: py_take_def)

lemma rev_argsort_mono:
  assumes "argsort_ok asort" "p \<le> q" "q < length v"
  shows "v ! (rev (asort v) ! q) \<le> v ! (rev (asort v) ! p)"
proof -
  have "length v - Suc q \<le> length v - Suc p" "length v - Suc p < length v"
    using assms(2,3) by auto
  from argsort_nth_mono[OF assms(1) this] assms(2,3) show ?thesis
    by (simp add: rev_nth length_argsort[OF assms(1)])
qed

subsection \<open>One sample\<close>

lemma distance_matrix_single: "distance_matrix dt [r] = Inr [[0]]"
proof -
  from distance_matrix_cases[of "[r]" dt] obtain Xs where
    Xs: "length Xs = 1" "distance_matrix dt [r] = Inr (pairwise_distances Xs)" by auto
  then obtain a where "Xs = [a]" by (cases Xs) auto
  with Xs(2) show ?thesis by (simp add: pairwise_distances_def euclidean_self)
qed

lemma argsort_single:
  assumes "argsort_ok asort"
  shows "asort [x] = [0]"
proof -
  have "length (asort [x]) = 1" by (simp add: length_argsort[OF assms])
  then obtain j where j: "asort [x] = [j]" by (cases "asort [x]") auto
  with set_argsort[OF assms, of "[x]"] show ?thesis by simp
qed

lemma find_neighbors_single:
  assumes "argsort_ok asort" "0 < k"
  shows "find_neighbors asort dt [r] y k = Inl ShapeMismatch"
proof -
  have "length (filter (\<lambda>j. y ! j = y ! 0) [0::nat]) \<le> 1" by simp
  then have h: "k_nearest_hits asort [[0]] y k 0 = []"
    by (simp add: k_nearest_hits_def argsort_single[OF assms(1)])
  from find_neighbors_nonempty[OF assms(1), of "[r]" dt y k] assms(2) show ?thesis
    by (simp add: distance_matrix_single h Let_def)
qed

subsection \<open>A column of range zero\<close>

lemma constant_column:
  assumes "max_diff dt X = Inr d" "j < length d" "d ! j = 0"
    and "\<forall>r\<in>set X. length r = shape1 X" and "valid_array dt X"
  shows "X \<noteq> []" and "j < shape1 X" and "wrap dt 0 = 0"
    and "\<forall>row\<in>set X. row ! j = Min (set (column X j))"
proof -
  from assms(1) show ne: "X \<noteq> []" by (auto simp: max_diff_empty)
  let ?mx = "Max (set (column X j))" and ?mn = "Min (set (column X j))"
  from assms(1,2) max_diff_Inr[OF ne, of dt] show j: "j < shape1 X" by auto
  have cne: "set (column X j) \<noteq> {}" using ne by (simp add: column_def)
  have val: "valid_entry dt x" if "x \<in> set (column X j)" for x
  proof -
    from that obtain row where row: "row \<in> set X" "x = row ! j" by (auto simp: column_def)
    with assms(4) j have "j < length row" by simp
    with row assms(5) show ?thesis by (simp add: valid_arrayD)
  qed
  have mx: "?mx \<in> set (column X j)" and mn: "?mn \<in> set (column X j)"
    using cne by (simp_all add: Max_in Min_in)
  from val[OF mn] show "wrap dt 0 = 0" by (rule wrap_zero)
  from assms(1,3) max_diff_Inr[OF ne, of dt] j have "wrap dt (?mx - ?mn) = 0"
    by (auto simp: np_subtract_def)
  with val[OF mx] val[OF mn] have eq: "?mx = ?mn" by (rule wrap_diff_zero)
  show "\<forall>row\<in>set X. row ! j = ?mn"
  proof
    fix row assume "row \<in> set X"
    then have "row ! j \<in> set (column X j)" by (auto simp: column_def)
    then have "?mn \<le> row ! j" "row ! j \<le> ?mx" by simp_all
    with eq show "row ! j = ?mn" by simp
  qed
qed

lemma constant_column_scaled:
  assumes "max_diff dt X = Inr d" "j < length d" "d ! j = 0"
    and "\<forall>r\<in>set X. length r = shape1 X" and "valid_array dt X"
  shows "\<exists>v Xs. max_diff_vec dt X = Inr v \<and> range_vec dt X = Inr v \<and> v ! j = 1 / 10 ^ 14
      \<and> 0 \<notin> set v \<and> X_scaled dt X = Inr Xs \<and> length Xs = length X
      \<and> (\<forall>row\<in>set Xs. row ! j = 0)"
proof -
  note cc = constant_column[OF assms]
  let ?v = "mask_assign_eq 0 (1 / 10 ^ 14) d"
  have v: "max_diff_vec dt X = Inr ?v" "range_vec dt X = Inr ?v"
    by (simp_all add: max_diff_vec_def range_vec_def assms(1))
  have vj: "?v ! j = 1 / 10 ^ 14"
    using assms(2,3) by (simp add: mask_assign_eq_def)
  have v0: "0 \<notin> set ?v" by (rule zero_notin_guard) simp
  have lv: "length ?v = shape1 X"
    using assms(1) max_diff_Inr[OF cc(1), of dt] by (auto simp: length_guard)
  let ?mnv = "map (\<lambda>j. Min (set (column X j))) [0..<shape1 X]"
  have mn: "np_min_axis0 X = Inr ?mnv" using cc(1) by (simp add: np_min_axis0_def)
  let ?Xs = "map (\<lambda>row. map2 (/) (map2 (np_subtract dt) row ?mnv) ?v) X"
  have xs: "X_scaled dt X = Inr ?Xs" by (rule X_scaled_Inr[OF v(1) mn v0])
  have "map2 (/) (map2 (np_subtract dt) row ?mnv) ?v ! j = 0" if row: "row \<in> set X" for row
  proof -
    from row assms(4) have lr: "length row = shape1 X" by simp
    from row cc(4) have "row ! j = Min (set (column X j))" by simp
    then show ?thesis using cc(2,3) lr lv by (simp add: np_subtract_def)
  qed
  then have "\<forall>row\<in>set ?Xs. row ! j = 0" by auto
  with v vj v0 xs show ?thesis by (intro exI[of _ ?v] exI[of _ ?Xs]) simp
qed

lemma feature_weight_constant:
  assumes "\<forall>p\<in>set hp \<union> set mp. fst p < length X \<and> snd p < length X"
    and "\<forall>row\<in>set X. row ! f = c" and "wrap dt 0 = 0"
  shows "feature_weight dt X hp mp r n f = 0"
proof -
  have col: "column X f ! i = c" if "i < length X" for i
    using that assms(2) by (simp add: column_def)
  have z: "map (\<lambda>d. np_abs dt d * r ! f)
             (map2 (np_subtract dt) (map (\<lambda>i. column X f ! i) (map snd ps))
                       (map (\<lambda>i. column X f ! i) (map fst ps)))
           = map (\<lambda>p. 0) ps"
    if "\<forall>p\<in>set ps. fst p < length X \<and> snd p < length X" for ps :: "(nat \<times> nat) list"
    using that by (induction ps) (auto simp: col np_abs_def np_subtract_def assms(3))
  have s0: "sum_list (map (\<lambda>p. 0::real) ps) = 0" for ps :: "(nat \<times> nat) list"
    by (induction ps) auto
  have zh: "map (\<lambda>d. np_abs dt d * r ! f)
             (map2 (np_subtract dt) (map (\<lambda>i. column X f ! i) (map snd hp))
                       (map (\<lambda>i. column X f ! i) (map fst hp)))
           = map (\<lambda>p. 0) hp"
    using assms(1) by (intro z) auto
  have zm: "map (\<lambda>d. np_abs dt d * r ! f)
             (map2 (np_subtract dt) (map (\<lambda>i. column X f ! i) (map snd mp))
                       (map (\<lambda>i. column X f ! i) (map fst mp)))
           = map (\<lambda>p. 0) mp"
    using assms(1) by (intro z) auto
  show ?thesis
    unfolding feature_weight_def Let_def zh zm by (simp add: s0)
qed

subsection \<open>The score formula on float64 input\<close>

lemma attr_diff_spec:
  assumes "\<forall>p\<in>set ps. fst p < length X \<and> snd p < length X"
  shows "map (\<lambda>d. np_abs Float64 d * c)
             (map2 (np_subtract Float64) (map (\<lambda>i. column X f ! i) (map snd ps))
                       (map (\<lambda>i. column X f ! i) (map fst ps)))
         = map (\<lambda>p. \<bar>X ! fst p ! f - X ! snd p ! f\<bar> * c) ps"
  using assms
  by (induction ps) (auto simp: column_def abs_minus_commute np_abs_def np_subtract_def)

lemma feature_weight_sum:
  assumes "\<forall>p\<in>set hp \<union> set mp. fst p < length X \<and> snd p < length X"
  shows "feature_weight Float64 X hp mp oor n f
         = sum_list (map (\<lambda>p. \<bar>X ! fst p ! f - X ! snd p ! f\<bar> * oor ! f) mp) / real n
           - sum_list (map (\<lambda>p. \<bar>X ! fst p ! f - X ! snd p ! f\<bar> * oor ! f) hp) / real n"
proof -
  have h: "\<forall>p\<in>set hp. fst p < length X \<and> snd p < length X"
    and m: "\<forall>p\<in>set mp. fst p < length X \<and> snd p < length X"
    using assms by auto
  show ?thesis
    unfolding feature_weight_def Let_def attr_diff_spec[OF h] attr_diff_spec[OF m] ..
qed

lemma feature_weight_spec:
  assumes "\<forall>p\<in>set hp \<union> set mp. fst p < length X \<and> snd p < length X"
    and "f < length v"
  shows "feature_weight Float64 X hp mp (map (\<lambda>r. 1 / r) v) (length X) f
         = spec_mu X mp (v ! f) f - spec_mu X hp (v ! f) f"
  using assms(2) by (simp add: feature_weight_sum[OF assms(1)] spec_mu_def)

lemma fit_score_formula_float64:
  assumes "argsort_ok asort" and "X \<noteq> []" and "check_input X y names = Inr (X, y, ns)"
    and "neighbor_precondition y k"
  shows "\<exists>hit_pairs miss_pairs v scores self'.
      find_neighbors asort Float64 X y k = Inr (hit_pairs, miss_pairs)
    \<and> length hit_pairs = k * length X \<and> length miss_pairs = k * length X
    \<and> range_vec Float64 X = Inr v
    \<and> fit asort Float64 self X y names k = (Inr (), self')
    \<and> feature_scores self' = Some scores \<and> length scores = shape1 X
    \<and> (\<forall>f<shape1 X. scores ! f = spec_score X hit_pairs miss_pairs (v ! f) f)"
proof -
  from check_input_Inr[OF assms(3)] have ly: "length y = length X" by simp
  from find_neighbors_precondition[OF assms(1,2) ly assms(4), of Float64] obtain D where
    D: "distance_matrix Float64 X = Inr D" and
    h: "length (concat (map (k_nearest_hits asort D y k) [0..<length X])) = k * length X" and
    m: "length (concat (map (k_nearest_misses asort D y k) [0..<length X])) = k * length X" and
    fn: "find_neighbors asort Float64 X y k =
       Inr (zip (concat (map (replicate k) [0..<length X]))
                (concat (map (k_nearest_hits asort D y k) [0..<length X])),
            zip (concat (map (replicate k) [0..<length X]))
                (concat (map (k_nearest_misses asort D y k) [0..<length X])))"
    by blast
  let ?hp = "zip (concat (map (replicate k) [0..<length X]))
                 (concat (map (k_nearest_hits asort D y k) [0..<length X]))"
  let ?mp = "zip (concat (map (replicate k) [0..<length X]))
                 (concat (map (k_nearest_misses asort D y k) [0..<length X]))"
  have lh: "length ?hp = k * length X" and lm: "length ?mp = k * length X"
    using h m by (simp_all add: length_indexes)
  from compute_scores_nonempty[OF assms(2), of Float64 asort y k] obtain v where
    v: "range_vec Float64 X = Inr v" "length v = shape1 X" and
    cs: "compute_scores asort Float64 X y k =
           Inr (map (\<lambda>f. feature_weight Float64 X ?hp ?mp (map (\<lambda>r. 1 / r) v) (length X) f
                           * (1 / real (length X)) * 1000) [0..<shape1 X])"
    by (auto simp: fn)
  let ?scores = "map (\<lambda>f. feature_weight Float64 X ?hp ?mp (map (\<lambda>r. 1 / r) v) (length X) f
                           * (1 / real (length X)) * 1000) [0..<shape1 X]"
  let ?self' = "self\<lparr>feature_names := Some (zip [0..<shape1 X] ns),
                     feature_scores := Some ?scores,
                     selected_features :=
                       Some (select_features asort [0..<shape1 X] ?scores
                               (n_features_to_keep self))\<rparr>"
  have fit: "fit asort Float64 self X y names k = (Inr (), ?self')"
    by (simp add: fit_unfold assms(3) cs)
  have sc: "?scores ! f = spec_score X ?hp ?mp (v ! f) f" if "f < shape1 X" for f
  proof -
    from that v(2) have fv: "f < length v" by simp
    show ?thesis
      using that
      by (simp add: feature_weight_spec[OF find_neighbors_bounds[OF assms(1) fn] fv]
            spec_score_def)
  qed
  show ?thesis
    using fn lh lm v(1) fit sc
    by (intro exI[of _ ?hp] exI[of _ ?mp] exI[of _ v] exI[of _ ?scores] exI[of _ ?self']) simp
qed

subsection \<open>Two pairs of equal rows\<close>

lemma labels_filter:
  assumes "argsort_ok asort" and "length v = 4"
  shows "set (filter (\<lambda>j. [1, - 1, 1, - 1 :: int] ! j = 1) (asort v)) = {0, 2}"
    and "set (filter (\<lambda>j. [1, - 1, 1, - 1 :: int] ! j = - 1) (asort v)) = {1, 3}"
    and "filter (\<lambda>j. [1, - 1, 1, - 1 :: int] ! j \<noteq> 1) (asort v)
         = filter (\<lambda>j. [1, - 1, 1, - 1 :: int] ! j = - 1) (asort v)"
    and "filter (\<lambda>j. [1, - 1, 1, - 1 :: int] ! j \<noteq> - 1) (asort v)
         = filter (\<lambda>j. [1, - 1, 1, - 1 :: int] ! j = 1) (asort v)"
proof -
  have "{0..<4::nat} = {0, 1, 2, 3}" by auto
  then have s: "set (asort v) = {0, 1, 2, 3}"
    using set_argsort[OF assms(1), of v] assms(2) by simp
  show "set (filter (\<lambda>j. [1, - 1, 1, - 1 :: int] ! j = 1) (asort v)) = {0, 2}"
    unfolding set_filter s by auto
  show "set (filter (\<lambda>j. [1, - 1, 1, - 1 :: int] ! j = - 1) (asort v)) = {1, 3}"
    unfolding set_filter s by auto
  have e: "([1, - 1, 1, - 1 :: int] ! j \<noteq> 1) = ([1, - 1, 1, - 1 :: int] ! j = - 1)"
    if "j \<in> set (asort v)" for j
    using that unfolding s by auto
  show "filter (\<lambda>j. [1, - 1, 1, - 1 :: int] ! j \<noteq> 1) (asort v)
         = filter (\<lambda>j. [1, - 1, 1, - 1 :: int] ! j = - 1) (asort v)"
    by (rule filter_cong[OF refl e])
  have e': "([1, - 1, 1, - 1 :: int] ! j \<noteq> - 1) = ([1, - 1, 1, - 1 :: int] ! j = 1)"
    if "j \<in> set (asort v)" for j
    using that unfolding s by auto
  show "filter (\<lambda>j. [1, - 1, 1, - 1 :: int] ! j \<noteq> - 1) (asort v)
         = filter (\<lambda>j. [1, - 1, 1, - 1 :: int] ! j = 1) (asort v)"
    by (rule filter_cong[OF refl e'])
qed

lemma neighbors_low_rows:
  assumes "argsort_ok asort" and "D ! i = [0, 0, 1, 1]"
  shows "(k_nearest_hits asort D [1, - 1, 1, - 1] 1 i = [2]
          \<and> k_nearest_misses asort D [1, - 1, 1, - 1] 1 i = [1])
       \<or> (k_nearest_hits asort D [1, - 1, 1, - 1] 1 i = [3]
          \<and> k_nearest_misses asort D [1, - 1, 1, - 1] 1 i = [0])"
proof -
  let ?v = "[0, 0, 1, 1 :: real]"
  let ?a = "asort ?v"
  have len: "length ?v = 4" by simp
  note lf = labels_filter[OF assms(1) len]
  have so: "sorted (map (\<lambda>j. ?v ! j) ?a)" and di: "distinct ?a"
    by (rule sorted_argsort[OF assms(1)], rule distinct_argsort[OF assms(1)])
  have p: "filter (\<lambda>j. [1, - 1, 1, - 1 :: int] ! j = 1) ?a = [0, 2]"
    by (rule filter_two_sorted[OF so di lf(1)]) simp
  have n: "filter (\<lambda>j. [1, - 1, 1, - 1 :: int] ! j = - 1) ?a = [1, 3]"
    by (rule filter_two_sorted[OF so di lf(2)]) simp
  have "?v ! hd ?a = 0"
    by (rule argsort_hd[OF assms(1), of 0]) (auto simp: nth_Cons')
  moreover have "hd ?a \<in> set ?a"
    using length_argsort[OF assms(1), of ?v] by (cases ?a) auto
  then have "hd ?a < 4" by (simp add: set_argsort[OF assms(1)])
  ultimately have "hd ?a = 0 \<or> hd ?a = 1"
    by (cases "hd ?a = 0"; cases "hd ?a = 1"; cases "hd ?a = 2"; cases "hd ?a = 3") auto
  then show ?thesis
    by (auto simp: k_nearest_hits_def k_nearest_misses_def assms(2) p n lf(3,4))
qed

lemma neighbors_high_rows:
  assumes "argsort_ok asort" and "D ! i = [1, 1, 0, 0]"
  shows "(k_nearest_hits asort D [1, - 1, 1, - 1] 1 i = [0]
          \<and> k_nearest_misses asort D [1, - 1, 1, - 1] 1 i = [3])
       \<or> (k_nearest_hits asort D [1, - 1, 1, - 1] 1 i = [1]
          \<and> k_nearest_misses asort D [1, - 1, 1, - 1] 1 i = [2])"
proof -
  let ?v = "[1, 1, 0, 0 :: real]"
  let ?a = "asort ?v"
  have len: "length ?v = 4" by simp
  note lf = labels_filter[OF assms(1) len]
  have so: "sorted (map (\<lambda>j. ?v ! j) ?a)" and di: "distinct ?a"
    by (rule sorted_argsort[OF assms(1)], rule distinct_argsort[OF assms(1)])
  have "{0, 2} = {2, 0::nat}" by auto
  with lf(1) have s1: "set (filter (\<lambda>j. [1, - 1, 1, - 1 :: int] ! j = 1) ?a) = {2, 0}" by simp
  have "{1, 3} = {3, 1::nat}" by auto
  with lf(2) have s2: "set (filter (\<lambda>j. [1, - 1, 1, - 1 :: int] ! j = - 1) ?a) = {3, 1}" by simp
  have p: "filter (\<lambda>j. [1, - 1, 1, - 1 :: int] ! j = 1) ?a = [2, 0]"
    by (rule filter_two_sorted[OF so di s1]) simp
  have n: "filter (\<lambda>j. [1, - 1, 1, - 1 :: int] ! j = - 1) ?a = [3, 1]"
    by (rule filter_two_sorted[OF so di s2]) simp
  have "?v ! hd ?a = 0"
    by (rule argsort_hd[OF assms(1), of 2]) (auto simp: nth_Cons')
  moreover have "hd ?a \<in> set ?a"
    using length_argsort[OF assms(1), of ?v] by (cases ?a) auto
  then have "hd ?a < 4" by (simp add: set_argsort[OF assms(1)])
  ultimately have "hd ?a = 2 \<or> hd ?a = 3"
    by (cases "hd ?a = 0"; cases "hd ?a = 1"; cases "hd ?a = 2"; cases "hd ?a = 3") auto
  then show ?thesis
    by (auto simp: k_nearest_hits_def k_nearest_misses_def assms(2) p n lf(3,4))
qed

subsection \<open>Inputs without equal keys\<close>

lemma find_neighbors_cong:
  assumes "argsort_ok asort" and "argsort_ok asort'" and "distance_matrix dt X = Inr D"
    and "\<forall>i<length X. asort (D ! i) = asort' (D ! i)"
  shows "find_neighbors asort dt X y k = find_neighbors asort' dt X y k"
proof -
  from assms(3) have ne: "X \<noteq> []" using distance_matrix_cases[of X dt] by auto
  have h: "map (k_nearest_hits asort D y k) [0..<length X]
           = map (k_nearest_hits asort' D y k) [0..<length X]"
    using assms(4) by (intro map_cong) (simp_all add: k_nearest_hits_def)
  have m: "map (k_nearest_misses asort D y k) [0..<length X]
           = map (k_nearest_misses asort' D y k) [0..<length X]"
    using assms(4) by (intro map_cong) (simp_all add: k_nearest_misses_def)
  from find_neighbors_nonempty[OF assms(1) ne, of dt y k]
    find_neighbors_nonempty[OF assms(2) ne, of dt y k] assms(3)
  show ?thesis by (simp add: h m)
qed

lemma fit_tie_free:
  assumes "argsort_ok asort" and "distance_matrix dt X = Inr D"
    and "\<forall>i<length X. distinct (D ! i)"
    and "compute_scores insertion_argsort dt X y k = Inr scores" and "distinct scores"
  shows "find_neighbors asort dt X y k = find_neighbors insertion_argsort dt X y k"
    and "fit asort dt self X y names k = fit insertion_argsort dt self X y names k"
proof -
  have r: "\<forall>i<length X. asort (D ! i) = insertion_argsort (D ! i)"
    using assms(3) by (simp add: argsort_insertion[OF assms(1)])
  show fn: "find_neighbors asort dt X y k = find_neighbors insertion_argsort dt X y k"
    by (rule find_neighbors_cong[OF assms(1) insertion_argsort_ok assms(2) r])
  then have cs: "compute_scores asort dt X y k = Inr scores"
    using assms(4) by (simp add: compute_scores_def)
  have s: "asort scores = insertion_argsort scores"
    by (rule argsort_insertion[OF assms(1,5)])
  show "fit asort dt self X y names k = fit insertion_argsort dt self X y names k"
    by (simp add: fit_unfold cs assms(4) select_features_def s split: sum.split prod.split)
qed

subsection \<open>Wrap-around in an integer dtype\<close>

lemma max_diff_int8_wraps: "max_diff (SignedInt 8) [[127, 0], [- 128, 6]] = Inr [- 1, 6]"
  by (simp add: stir_eval)

subsection \<open>A sample with no other sample at distance 0\<close>

lemma argsort_hd_unique:
  assumes "argsort_ok asort" and "distance_matrix dt X = Inr D" and "i < length X"
    and "\<forall>j<length X. j \<noteq> i \<longrightarrow> D ! i ! j \<noteq> 0"
  shows "hd (asort (D ! i)) = i"
proof -
  note sh = distance_matrix_shape[OF assms(2,3)]
  let ?a = "asort (D ! i)"
  have i: "i < length (D ! i)" using assms(3) sh(2) by simp
  have nn: "\<forall>j<length (D ! i). 0 \<le> D ! i ! j" using sh(4) sh(2) by simp
  have z: "D ! i ! hd ?a = 0" by (rule argsort_hd[OF assms(1) i sh(3) nn])
  have "?a \<noteq> []" using i length_argsort[OF assms(1), of "D ! i"] by (cases ?a) auto
  then have "hd ?a \<in> set ?a" by simp
  then have "hd ?a < length X" by (simp add: set_argsort[OF assms(1)] sh(2))
  with z assms(4) show ?thesis by auto
qed

lemma k_nearest_self_first:
  assumes "argsort_ok asort" and "distance_matrix dt X = Inr D" and "i < length X"
    and "\<forall>j<length X. j \<noteq> i \<longrightarrow> D ! i ! j \<noteq> 0"
  shows "\<forall>h\<in>set (k_nearest_hits asort D y k i). y ! h = y ! i \<and> h \<noteq> i"
    and "\<forall>m\<in>set (k_nearest_misses asort D y k i). y ! m \<noteq> y ! i \<and> m \<noteq> i"
    and "set (k_nearest_hits asort D y k i) \<inter> set (k_nearest_misses asort D y k i) = {}"
proof -
  let ?a = "asort (D ! i)"
  have hd: "hd ?a = i" by (rule argsort_hd_unique[OF assms])
  have "length ?a = length X"
    by (simp add: length_argsort[OF assms(1)] distance_matrix_shape(2)[OF assms(2,3)])
  with assms(3) have "?a \<noteq> []" by (cases ?a) auto
  with hd obtain rest where a: "?a = i # rest" by (cases ?a) auto
  with distinct_argsort[OF assms(1), of "D ! i"] have ni: "i \<notin> set rest" by simp
  have hits: "k_nearest_hits asort D y k i = take k (filter (\<lambda>j. y ! j = y ! i) rest)"
    by (simp add: k_nearest_hits_def a)
  have misses: "k_nearest_misses asort D y k i = take k (filter (\<lambda>j. y ! j \<noteq> y ! i) rest)"
    by (simp add: k_nearest_misses_def a)
  show h: "\<forall>h\<in>set (k_nearest_hits asort D y k i). y ! h = y ! i \<and> h \<noteq> i"
    unfolding hits using ni by (auto dest!: in_set_takeD)
  show m: "\<forall>m\<in>set (k_nearest_misses asort D y k i). y ! m \<noteq> y ! i \<and> m \<noteq> i"
    unfolding misses by (auto dest!: in_set_takeD)
  from h m show "set (k_nearest_hits asort D y k i) \<inter> set (k_nearest_misses asort D y k i) = {}"
    by auto
qed

section \<open>The claims\<close>

subsection \<open>The score formula (C1)\<close>

text \<open>
  Claim C1, at an input of dtype uint8 that meets the neighbour precondition and has no
  equal distances, so that the outcome is the same for every \<open>np.argsort\<close>. The hit pairs
  and the miss pairs are those of the nearest hit and miss of each sample and the range is
  4, so the claimed score is 93.75; \<open>fit\<close> stores the score 0, because line 175 and line
  176 subtract the attribute values in the dtype of \<open>X\<close>, where \<open>0 - 1\<close> is 255.
\<close>

theorem fit_uint8_wraps:
  assumes "argsort_ok asort"
  shows "find_neighbors asort (UnsignedInt 8) [[0], [1], [3], [4]] [1, 1, - 1, - 1] 1
           = Inr ([(0, 1), (1, 0), (2, 3), (3, 2)], [(0, 2), (1, 2), (2, 1), (3, 1)])
       \<and> range_vec (UnsignedInt 8) [[0], [1], [3], [4]] = Inr [4]
       \<and> fit asort (UnsignedInt 8) (STIR_init 10) [[0], [1], [3], [4]] [1, 1, - 1, - 1] None 1
           = (Inr (),
              \<lparr> n_features_to_keep = 10, feature_scores = Some [0], top_features = None,
                feature_names = Some [], selected_features = Some [0] \<rparr>)
       \<and> spec_score [[0], [1], [3], [4]]
             [(0, 1), (1, 0), (2, 3), (3, 2)] [(0, 2), (1, 2), (2, 1), (3, 1)] 4 0 = 375 / 4"
proof -
  let ?X = "[[0], [1], [3], [4 :: real]]"
  let ?y = "[1, 1, - 1, - 1 :: int]"
  let ?D = "[[0, sqrt (1 / 16), sqrt (9 / 16), 1],
             [sqrt (1 / 16), 0, sqrt (1 / 4), sqrt (9 / 16)],
             [sqrt (9 / 16), sqrt (1 / 4), 0, sqrt (1 / 16)],
             [1, sqrt (9 / 16), sqrt (1 / 16), 0 :: real]]"
  have D: "distance_matrix (UnsignedInt 8) ?X = Inr ?D" by (simp add: stir_eval)
  have rows: "\<forall>i<length ?X. distinct (?D ! i)"
    by (simp add: less_Suc_eq numeral_2_eq_2 numeral_3_eq_3)
  have cs: "compute_scores insertion_argsort (UnsignedInt 8) ?X ?y 1 = Inr [0]"
    by (simp add: stir_eval)
  have ds: "distinct [0 :: real]" by simp
  note tf = fit_tie_free[OF assms D rows cs ds]
  have fn: "find_neighbors insertion_argsort (UnsignedInt 8) ?X ?y 1
           = Inr ([(0, 1), (1, 0), (2, 3), (3, 2)], [(0, 2), (1, 2), (2, 1), (3, 1)])"
    by (simp add: stir_eval)
  have rv: "range_vec (UnsignedInt 8) ?X = Inr [4]" by (simp add: stir_eval)
  have fit: "fit insertion_argsort (UnsignedInt 8) (STIR_init 10) ?X ?y None 1
           = (Inr (),
              \<lparr> n_features_to_keep = 10, feature_scores = Some [0], top_features = None,
                feature_names = Some [], selected_features = Some [0] \<rparr>)"
    by (simp add: stir_eval)
  have sp: "spec_score ?X [(0, 1), (1, 0), (2, 3), (3, 2)] [(0, 2), (1, 2), (2, 1), (3, 1)] 4 0
            = 375 / 4"
    by (simp add: spec_score_def spec_mu_def)
  show ?thesis
    unfolding tf(1) tf(2) by (intro conjI fn rv fit sp)
qed

theorem fit_uint8_wraps_witness:
  "argsort_ok insertion_argsort
   \<and> fit insertion_argsort (UnsignedInt 8) (STIR_init 10) [[0], [1], [3], [4]]
         [1, 1, - 1, - 1] None 1
       = (Inr (),
          \<lparr> n_features_to_keep = 10, feature_scores = Some [0], top_features = None,
            feature_names = Some [], selected_features = Some [0] \<rparr>)
   \<and> spec_score [[0], [1], [3], [4]]
         [(0, 1), (1, 0), (2, 3), (3, 2)] [(0, 2), (1, 2), (2, 1), (3, 1)] 4 0 = 375 / 4"
  using fit_uint8_wraps[OF insertion_argsort_ok] insertion_argsort_ok by blast

subsection \<open>Hits and misses (C2)\<close>

text \<open>
  Claim C2, at an input that meets the claim's precondition (two classes of two samples,
  \<open>k = 1\<close>) and in which rows 0 and 1 are equal and rows 2 and 3 are equal. Samples 0 and 1
  have one and the same row of distances, hence one sorted order, whatever \<open>np.argsort\<close>
  does with equal distances, and \<open>find_neighbors\<close> gives both the same hit (\<open>h0\<close>) and the
  same miss (\<open>m0\<close>): either sample 1, of label -1, gets the hit 2, of label 1, and itself
  as its miss, or sample 0, of label 1, gets the hit 3, of label -1, and itself as its
  miss. The same holds of samples 2 and 3.
\<close>

theorem find_neighbors_duplicate_rows:
  assumes "argsort_ok asort"
  shows "\<exists>h0 m0 h1 m1.
      find_neighbors asort Float64 [[0], [0], [1], [1]] [1, - 1, 1, - 1] 1
        = Inr ([(0, h0), (1, h0), (2, h1), (3, h1)], [(0, m0), (1, m0), (2, m1), (3, m1)])
    \<and> ((h0 = 2 \<and> m0 = 1) \<or> (h0 = 3 \<and> m0 = 0))
    \<and> ((h1 = 0 \<and> m1 = 3) \<or> (h1 = 1 \<and> m1 = 2))"
proof -
  let ?X = "[[0], [0], [1], [1 :: real]]"
  let ?y = "[1, - 1, 1, - 1 :: int]"
  let ?D = "[[0, 0, 1, 1], [0, 0, 1, 1], [1, 1, 0, 0], [1, 1, 0, 0 :: real]]"
  have D: "distance_matrix Float64 ?X = Inr ?D" by (simp add: stir_eval)
  have ne: "?X \<noteq> []" by simp
  from find_neighbors_nonempty[OF assms ne, of Float64 ?y 1] D have
    fn: "find_neighbors asort Float64 ?X ?y 1 =
       (let indexes = concat (map (replicate 1) [0..<length ?X]);
            hits = concat (map (k_nearest_hits asort ?D ?y 1) [0..<length ?X]);
            misses = concat (map (k_nearest_misses asort ?D ?y 1) [0..<length ?X])
        in if length hits = length indexes \<and> length misses = length indexes
           then Inr (zip indexes hits, zip indexes misses) else Inl ShapeMismatch)"
    by auto
  have u: "[0..<length ?X] = [0, 1, 2, 3]" by (simp add: upt_rec)
  have d0: "?D ! 0 = [0, 0, 1, 1]" and d1: "?D ! 1 = [0, 0, 1, 1]"
    and d2: "?D ! 2 = [1, 1, 0, 0]" and d3: "?D ! 3 = [1, 1, 0, 0]" by simp_all
  define H where "H = k_nearest_hits asort ?D ?y 1"
  define M where "M = k_nearest_misses asort ?D ?y 1"
  have e01: "H (Suc 0) = H 0" "M (Suc 0) = M 0"
    unfolding H_def M_def
    by (simp_all only: k_nearest_hits_def k_nearest_misses_def d0 d1 One_nat_def[symmetric])
  have e23: "H 3 = H 2" "M 3 = M 2"
    unfolding H_def M_def
    by (simp_all only: k_nearest_hits_def k_nearest_misses_def d2 d3)
  from neighbors_low_rows[OF assms d0] obtain h0 m0 where
    l: "H 0 = [h0]" "M 0 = [m0]" "(h0 = 2 \<and> m0 = 1) \<or> (h0 = 3 \<and> m0 = 0)"
    unfolding H_def M_def by auto
  from neighbors_high_rows[OF assms d2] obtain h1 m1 where
    h: "H 2 = [h1]" "M 2 = [m1]" "(h1 = 0 \<and> m1 = 3) \<or> (h1 = 1 \<and> m1 = 2)"
    unfolding H_def M_def by auto
  have "find_neighbors asort Float64 ?X ?y 1
        = Inr ([(0, h0), (1, h0), (2, h1), (3, h1)], [(0, m0), (1, m0), (2, m1), (3, m1)])"
    unfolding fn u H_def[symmetric] M_def[symmetric]
    by (simp add: Let_def e01 e23 l(1,2) h(1,2))
  with l(3) h(3) show ?thesis by blast
qed

theorem find_neighbors_duplicate_rows_witness:
  "argsort_ok insertion_argsort
   \<and> (\<exists>h0 m0 h1 m1.
      find_neighbors insertion_argsort Float64 [[0], [0], [1], [1]] [1, - 1, 1, - 1] 1
        = Inr ([(0, h0), (1, h0), (2, h1), (3, h1)], [(0, m0), (1, m0), (2, m1), (3, m1)])
    \<and> ((h0 = 2 \<and> m0 = 1) \<or> (h0 = 3 \<and> m0 = 0))
    \<and> ((h1 = 0 \<and> m1 = 3) \<or> (h1 = 1 \<and> m1 = 2)))"
  using find_neighbors_duplicate_rows[OF insertion_argsort_ok] insertion_argsort_ok by blast

subsection \<open>The order of the selection (C3)\<close>

text \<open>
  Claim C3, as the code has it. After a \<open>fit\<close> that returns, the selected feature indices
  are in descending order of score. Nothing fixes the order of two features of equal
  score: it is the reverse of the order that \<open>np.argsort\<close> leaves them in.
\<close>

theorem selection_order:
  assumes "argsort_ok asort" and "fit asort dt self X y names k = (Inr u, self')"
  shows "\<exists>scores sel. feature_scores self' = Some scores \<and> selected_features self' = Some sel
     \<and> (\<forall>p q. p < q \<and> q < length sel \<longrightarrow> scores ! (sel ! q) \<le> scores ! (sel ! p))"
proof -
  from fit_Inr[OF assms(2)] obtain ns scores where
    len: "length scores = shape1 X" and
    s: "self' = self\<lparr>feature_names := Some (zip [0..<shape1 X] ns),
                      feature_scores := Some scores,
                      selected_features :=
                        Some (select_features asort [0..<shape1 X] scores
                                (n_features_to_keep self))\<rparr>"
    by blast
  let ?sel = "select_features asort [0..<shape1 X] scores (n_features_to_keep self)"
  obtain c where c: "?sel = take c (rev (asort scores))"
    using py_take_prefix[of "n_features_to_keep self" "rev (asort scores)"]
    by (auto simp: select_features_eq[OF assms(1) len])
  have "scores ! (?sel ! q) \<le> scores ! (?sel ! p)" if "p < q" "q < length ?sel" for p q
  proof -
    from that c have q: "q < c" "q < length scores"
      by (simp_all add: length_argsort[OF assms(1)])
    with that(1) have "?sel ! p = rev (asort scores) ! p" "?sel ! q = rev (asort scores) ! q"
      unfolding c by simp_all
    moreover from that(1) have "p \<le> q" by simp
    ultimately show ?thesis using rev_argsort_mono[OF assms(1) _ q(2), of p] by simp
  qed
  then show ?thesis by (intro exI[of _ scores] exI[of _ ?sel]) (simp add: s)
qed

text \<open>
  Against C3 as stated: the two features have the score 93.75 each. An \<open>np.argsort\<close> that
  returns the two equal scores in index order, as the contract allows and an insertion
  sort does, makes the selection list feature 1 before feature 0.
\<close>

theorem selection_ties_counterexample:
  "argsort_ok insertion_argsort
   \<and> fit insertion_argsort Float64 (STIR_init 10) [[0, 0], [1, 1], [3, 3], [4, 4]]
         [1, 1, - 1, - 1] None 1
     = (Inr (),
        \<lparr> n_features_to_keep = 10, feature_scores = Some [375 / 4, 375 / 4],
          top_features = None, feature_names = Some [], selected_features = Some [1, 0] \<rparr>)"
  by (simp add: insertion_argsort_ok) (simp add: stir_eval)

theorem selection_order_witness:
  "argsort_ok insertion_argsort
   \<and> fit insertion_argsort Float64 (STIR_init 10) [[0, 7], [1, 7], [3, 7], [4, 7]]
         [1, 1, - 1, - 1] None 1
     = (Inr (),
        \<lparr> n_features_to_keep = 10, feature_scores = Some [375 / 4, 0],
          top_features = None, feature_names = Some [], selected_features = Some [0, 1] \<rparr>)
   \<and> (\<exists>scores sel.
         feature_scores \<lparr> n_features_to_keep = 10, feature_scores = Some [375 / 4, 0],
            top_features = None, feature_names = Some [], selected_features = Some [0, 1] \<rparr>
           = Some scores
       \<and> selected_features \<lparr> n_features_to_keep = 10, feature_scores = Some [375 / 4, 0],
            top_features = None, feature_names = Some [], selected_features = Some [0, 1] \<rparr>
           = Some sel
       \<and> scores ! (sel ! 1) \<le> scores ! (sel ! 0))"
proof -
  have f: "fit insertion_argsort Float64 (STIR_init 10) [[0, 7], [1, 7], [3, 7], [4, 7]]
         [1, 1, - 1, - 1] None 1
     = (Inr (),
        \<lparr> n_features_to_keep = 10, feature_scores = Some [375 / 4, 0],
          top_features = None, feature_names = Some [], selected_features = Some [0, 1] \<rparr>)"
    by (simp add: stir_eval)
  from selection_order[OF insertion_argsort_ok f] obtain scores sel where
    a: "feature_scores \<lparr> n_features_to_keep = 10, feature_scores = Some [375 / 4, 0],
            top_features = None, feature_names = Some [], selected_features = Some [0, 1] \<rparr>
           = Some scores"
    and b: "selected_features \<lparr> n_features_to_keep = 10, feature_scores = Some [375 / 4, 0],
            top_features = None, feature_names = Some [], selected_features = Some [0, 1] \<rparr>
           = Some sel"
    and c: "\<forall>p q. p < q \<and> q < length sel \<longrightarrow> scores ! (sel ! q) \<le> scores ! (sel ! p)"
    by blast
  from b have "length sel = 2" by auto
  with c have "scores ! (sel ! 1) \<le> scores ! (sel ! 0)" by simp
  with f a b insertion_argsort_ok show ?thesis by blast
qed

subsection \<open>The size of the selection (C4)\<close>

text \<open>
  Claim C4. After a \<open>fit\<close> that returns, on a model whose \<open>n_features_to_keep\<close> is not
  negative (the spec: a positive integer), the number of selected features is
  \<open>min(n_features_to_keep, n_features)\<close>; when \<open>n_features_to_keep\<close> is at least
  \<open>n_features\<close>, every feature is selected. This holds for every \<open>np.argsort\<close> and every
  dtype.
\<close>

theorem selection_size:
  assumes "argsort_ok asort" and "fit asort dt self X y names k = (Inr u, self')"
    and "0 \<le> n_features_to_keep self"
  shows "\<exists>sel. selected_features self' = Some sel
     \<and> int (length sel) = min (n_features_to_keep self) (int (shape1 X))
     \<and> (int (shape1 X) \<le> n_features_to_keep self \<longrightarrow> set sel = {0..<shape1 X})"
proof -
  from fit_Inr[OF assms(2)] obtain ns scores where
    len: "length scores = shape1 X" and
    s: "self' = self\<lparr>feature_names := Some (zip [0..<shape1 X] ns),
                      feature_scores := Some scores,
                      selected_features :=
                        Some (select_features asort [0..<shape1 X] scores
                                (n_features_to_keep self))\<rparr>"
    by blast
  let ?sel = "select_features asort [0..<shape1 X] scores (n_features_to_keep self)"
  have e: "?sel = py_take (n_features_to_keep self) (rev (asort scores))"
    by (rule select_features_eq[OF assms(1) len])
  have 1: "int (length ?sel) = min (n_features_to_keep self) (int (shape1 X))"
    using length_py_take[OF assms(3), of "rev (asort scores)"]
    by (simp add: e length_argsort[OF assms(1)] len)
  have 2: "set ?sel = {0..<shape1 X}" if "int (shape1 X) \<le> n_features_to_keep self"
    using that py_take_all[of "rev (asort scores)" "n_features_to_keep self"]
    by (simp add: e length_argsort[OF assms(1)] len set_argsort[OF assms(1)])
  from 1 2 show ?thesis by (intro exI[of _ ?sel]) (simp add: s)
qed

theorem selection_size_witness:
  "argsort_ok insertion_argsort
   \<and> fit insertion_argsort Float64 (STIR_init 1) [[0, 7], [1, 7], [3, 7], [4, 7]]
         [1, 1, - 1, - 1] None 1
     = (Inr (),
        \<lparr> n_features_to_keep = 1, feature_scores = Some [375 / 4, 0],
          top_features = None, feature_names = Some [], selected_features = Some [0] \<rparr>)
   \<and> 0 \<le> n_features_to_keep (STIR_init 1)
   \<and> (\<exists>sel. selected_features
              \<lparr> n_features_to_keep = 1, feature_scores = Some [375 / 4, 0],
                top_features = None, feature_names = Some [], selected_features = Some [0] \<rparr>
            = Some sel
        \<and> int (length sel) = min (n_features_to_keep (STIR_init 1))
                                  (int (shape1 [[0, 7], [1, 7], [3, 7], [4, 7]])))"
proof -
  have f: "fit insertion_argsort Float64 (STIR_init 1) [[0, 7], [1, 7], [3, 7], [4, 7]]
         [1, 1, - 1, - 1] None 1
     = (Inr (),
        \<lparr> n_features_to_keep = 1, feature_scores = Some [375 / 4, 0],
          top_features = None, feature_names = Some [], selected_features = Some [0] \<rparr>)"
    by (simp add: stir_eval)
  have n: "0 \<le> n_features_to_keep (STIR_init 1)" by (simp add: STIR_init_def)
  from selection_size[OF insertion_argsort_ok f n] f n insertion_argsort_ok
  show ?thesis by blast
qed

subsection \<open>The sorted order of a sample (C5)\<close>

text \<open>
  Claim C5, as the code has it. For every sample \<open>i\<close> of an input whose distance matrix
  is computed, the sorted order \<open>np.argsort(X_distances[i])\<close> holds every sample index once,
  in ascending order of distance. Its first position holds a sample at distance 0 of \<open>i\<close>;
  that is \<open>i\<close> itself when no other sample is at distance 0. Nothing fixes the order of
  samples at equal distance.
\<close>

theorem argsort_distances_order:
  assumes "argsort_ok asort" and "distance_matrix dt X = Inr D" and "i < length X"
  shows "set (asort (D ! i)) = {0..<length X} \<and> distinct (asort (D ! i))
       \<and> sorted (map (\<lambda>j. D ! i ! j) (asort (D ! i)))
       \<and> D ! i ! hd (asort (D ! i)) = 0
       \<and> ((\<forall>j<length X. j \<noteq> i \<longrightarrow> D ! i ! j \<noteq> 0) \<longrightarrow> hd (asort (D ! i)) = i)"
proof -
  note sh = distance_matrix_shape[OF assms(2,3)]
  have len: "length (D ! i) = length X" by (rule sh(2))
  have i: "i < length (D ! i)" using assms(3) len by simp
  have nn: "\<forall>j<length (D ! i). 0 \<le> D ! i ! j" using sh(4) len by simp
  have z: "D ! i ! hd (asort (D ! i)) = 0" by (rule argsort_hd[OF assms(1) i sh(3) nn])
  have u: "hd (asort (D ! i)) = i" if "\<forall>j<length X. j \<noteq> i \<longrightarrow> D ! i ! j \<noteq> 0"
    by (rule argsort_hd_unique[OF assms that])
  show ?thesis
    using z u
    by (simp add: set_argsort[OF assms(1)] distinct_argsort[OF assms(1)]
          sorted_argsort[OF assms(1)] len)
qed

text \<open>
  Against C5 as stated: rows 0 and 1 are equal, so samples 0 and 1 have the same row of
  distances and the same sorted order, and no \<open>np.argsort\<close> puts each of them first in
  its own order.
\<close>

theorem argsort_self_first_counterexample:
  "distance_matrix Float64 [[0], [0], [1]] = Inr [[0, 0, 1], [0, 0, 1], [1, 1, 0]]
   \<and> \<not> (\<exists>asort :: real list \<Rightarrow> nat list.
                hd (asort ([[0, 0, 1], [0, 0, 1], [1, 1, 0]] ! 0)) = 0
                \<and> hd (asort ([[0, 0, 1], [0, 0, 1], [1, 1, 0]] ! 1)) = 1)"
proof -
  have "distance_matrix Float64 [[0], [0], [1]] = Inr [[0, 0, 1], [0, 0, 1], [1, 1, 0]]"
    by (simp add: stir_eval)
  moreover have "\<not> (\<exists>asort :: real list \<Rightarrow> nat list.
                hd (asort ([[0, 0, 1], [0, 0, 1], [1, 1, 0]] ! 0)) = 0
                \<and> hd (asort ([[0, 0, 1], [0, 0, 1], [1, 1, 0]] ! 1)) = 1)"
  proof
    assume "\<exists>asort :: real list \<Rightarrow> nat list.
                hd (asort ([[0, 0, 1], [0, 0, 1], [1, 1, 0]] ! 0)) = 0
                \<and> hd (asort ([[0, 0, 1], [0, 0, 1], [1, 1, 0]] ! 1)) = 1"
    then obtain asort :: "real list \<Rightarrow> nat list" where
      a: "hd (asort ([[0, 0, 1], [0, 0, 1], [1, 1, 0]] ! 0)) = 0"
         "hd (asort ([[0, 0, 1], [0, 0, 1], [1, 1, 0]] ! 1)) = 1"
      by blast
    from a(1) have "hd (asort [0, 0, 1]) = 0" by simp
    moreover from a(2) have "hd (asort [0, 0, 1]) = 1" by simp
    ultimately show False by simp
  qed
  ultimately show ?thesis by (rule conjI)
qed

theorem argsort_distances_order_witness:
  "argsort_ok insertion_argsort
   \<and> distance_matrix Float64 [[0], [0], [1]] = Inr [[0, 0, 1], [0, 0, 1], [1, 1, 0]]
   \<and> (2::nat) < length [[0::real], [0], [1]]
   \<and> [[0, 0, 1], [0, 0, 1], [1, 1, 0::real]] ! 2 ! 0 \<noteq> 0
   \<and> [[0, 0, 1], [0, 0, 1], [1, 1, 0::real]] ! 2 ! 1 \<noteq> 0
   \<and> hd (insertion_argsort ([[0, 0, 1], [0, 0, 1], [1, 1, 0]] ! 2)) = 2"
proof -
  have d: "distance_matrix Float64 [[0], [0], [1]] = Inr [[0, 0, 1], [0, 0, 1], [1, 1, 0]]"
    by (simp add: stir_eval)
  have i: "(2::nat) < length [[0::real], [0], [1]]" by simp
  have nz: "\<forall>j<length [[0::real], [0], [1]].
              j \<noteq> 2 \<longrightarrow> [[0, 0, 1], [0, 0, 1], [1, 1, 0::real]] ! 2 ! j \<noteq> 0"
    by (simp add: less_Suc_eq)
  from argsort_distances_order[OF insertion_argsort_ok d i] nz
  have "hd (insertion_argsort ([[0, 0, 1], [0, 0, 1], [1, 1, 0]] ! 2)) = 2" by blast
  with d i insertion_argsort_ok show ?thesis by simp
qed

subsection \<open>A column of range zero (C6)\<close>

text \<open>
  Claim C6. Let column \<open>j\<close> of a two-dimensional input have the range 0
  (\<open>max - min\<close>, as \<open>max_diff\<close> computes it), the entries being values of the dtype of the
  input. Then the vector that \<open>distance_matrix\<close> divides by, and the one of \<open>fit\<close>, hold
  1e-14 at \<open>j\<close> and no zero anywhere; the scaled matrix and the distance matrix are
  computed, and the scaled column \<open>j\<close> is all zeros; \<open>fit\<close> never ends in a division by
  zero, neither Python's ZeroDivisionError nor numpy's inf or nan, and when it returns,
  its scores are numbers, one per feature, that of column \<open>j\<close> being 0.
\<close>

theorem constant_column_guard:
  assumes "argsort_ok asort" and "valid_array dt X"
    and "max_diff dt X = Inr d" and "j < length d" and "d ! j = 0"
    and "\<forall>r\<in>set X. length r = shape1 X"
  shows "(\<exists>v Xs D. max_diff_vec dt X = Inr v \<and> range_vec dt X = Inr v \<and> v ! j = 1 / 10 ^ 14
            \<and> 0 \<notin> set v \<and> X_scaled dt X = Inr Xs \<and> (\<forall>row\<in>set Xs. row ! j = 0)
            \<and> distance_matrix dt X = Inr D)
       \<and> (case fit asort dt self X y names k of
            (Inl e, s) \<Rightarrow> e \<noteq> NonFinite \<and> e \<noteq> ZeroDivisionError
          | (Inr u, s) \<Rightarrow>
              \<exists>scores. feature_scores s = Some scores \<and> length scores = shape1 X
                \<and> scores ! j = 0)"
proof -
  note cc = constant_column[OF assms(3,4,5,6,2)]
  from constant_column_scaled[OF assms(3,4,5,6,2)] obtain v Xs where
    v: "max_diff_vec dt X = Inr v" "range_vec dt X = Inr v" "v ! j = 1 / 10 ^ 14" "0 \<notin> set v"
    and Xs: "X_scaled dt X = Inr Xs" "\<forall>row\<in>set Xs. row ! j = 0"
    by blast
  have D: "distance_matrix dt X = Inr (pairwise_distances Xs)"
    by (simp add: distance_matrix_def Xs(1))
  have fitc: "case fit asort dt self X y names k of
            (Inl e, s) \<Rightarrow> e \<noteq> NonFinite \<and> e \<noteq> ZeroDivisionError
          | (Inr u, s) \<Rightarrow>
              \<exists>scores. feature_scores s = Some scores \<and> length scores = shape1 X
                \<and> scores ! j = 0"
  proof (cases "fit asort dt self X y names k")
    case (Pair res s)
    show ?thesis
    proof (cases res)
      case (Inl e)
      with Pair fit_no_division_failure[OF assms(1), of dt self X y names k] show ?thesis
        by auto
    next
      case (Inr u)
      from fit_Inr[of asort dt self X y names k u s] Pair Inr obtain ns scores where
        cs: "compute_scores asort dt X y k = Inr scores" and len: "length scores = shape1 X"
        and s: "s = self\<lparr>feature_names := Some (zip [0..<shape1 X] ns),
                      feature_scores := Some scores,
                      selected_features :=
                        Some (select_features asort [0..<shape1 X] scores
                                (n_features_to_keep self))\<rparr>"
        by auto
      from compute_scores_Inr[OF cs] obtain w hp mp where
        fn: "find_neighbors asort dt X y k = Inr (hp, mp)" and
        sc: "scores = map (\<lambda>f. feature_weight dt X hp mp (map (\<lambda>r. 1 / r) w) (length X) f
                               * (1 / real (length X)) * 1000) [0..<shape1 X]"
        by blast
      have "feature_weight dt X hp mp (map (\<lambda>r. 1 / r) w) (length X) j = 0"
        by (rule feature_weight_constant[OF find_neighbors_bounds[OF assms(1) fn] cc(4) cc(3)])
      with sc cc(2) have "scores ! j = 0" by simp
      with Pair Inr s len show ?thesis by simp
    qed
  qed
  from v Xs D fitc show ?thesis by blast
qed

theorem constant_column_guard_witness:
  "argsort_ok insertion_argsort
   \<and> valid_array Float64 [[0, 7], [1, 7], [3, 7], [4, 7]]
   \<and> max_diff Float64 [[0, 7], [1, 7], [3, 7], [4, 7]] = Inr [4, 0]
   \<and> (1::nat) < length [4, 0 :: real] \<and> [4, 0 :: real] ! 1 = 0
   \<and> (\<exists>v Xs D. max_diff_vec Float64 [[0, 7], [1, 7], [3, 7], [4, 7]] = Inr v
         \<and> range_vec Float64 [[0, 7], [1, 7], [3, 7], [4, 7]] = Inr v \<and> v ! 1 = 1 / 10 ^ 14
         \<and> 0 \<notin> set v \<and> X_scaled Float64 [[0, 7], [1, 7], [3, 7], [4, 7]] = Inr Xs
         \<and> (\<forall>row\<in>set Xs. row ! 1 = 0)
         \<and> distance_matrix Float64 [[0, 7], [1, 7], [3, 7], [4, 7]] = Inr D)
   \<and> fit insertion_argsort Float64 (STIR_init 10) [[0, 7], [1, 7], [3, 7], [4, 7]]
         [1, 1, - 1, - 1] None 1
       = (Inr (),
          \<lparr> n_features_to_keep = 10, feature_scores = Some [375 / 4, 0], top_features = None,
            feature_names = Some [], selected_features = Some [0, 1] \<rparr>)"
proof -
  let ?X = "[[0, 7], [1, 7], [3, 7], [4, 7 :: real]]"
  have 0: "valid_array Float64 ?X" by (rule valid_array_Float64)
  have 1: "max_diff Float64 ?X = Inr [4, 0]" by (simp add: stir_eval)
  have 2: "(1::nat) < length [4, 0 :: real]" by simp
  have 3: "[4, 0 :: real] ! 1 = 0" by simp
  have 4: "\<forall>r\<in>set ?X. length r = shape1 ?X" by (simp add: shape1_def)
  have f: "fit insertion_argsort Float64 (STIR_init 10) ?X [1, 1, - 1, - 1] None 1
       = (Inr (),
          \<lparr> n_features_to_keep = 10, feature_scores = Some [375 / 4, 0], top_features = None,
            feature_names = Some [], selected_features = Some [0, 1] \<rparr>)"
    by (simp add: stir_eval)
  from constant_column_guard[OF insertion_argsort_ok 0 1 2 3 4,
      of "STIR_init 10" "[1, 1, - 1, - 1]" None 1]
  have "\<exists>v Xs D. max_diff_vec Float64 ?X = Inr v \<and> range_vec Float64 ?X = Inr v
         \<and> v ! 1 = 1 / 10 ^ 14
         \<and> 0 \<notin> set v \<and> X_scaled Float64 ?X = Inr Xs \<and> (\<forall>row\<in>set Xs. row ! 1 = 0)
         \<and> distance_matrix Float64 ?X = Inr D"
    by (rule conjunct1)
  with 0 1 2 3 f insertion_argsort_ok show ?thesis by blast
qed

subsection \<open>transform before fit (C7)\<close>

text \<open>
  Claim C7, as the code has it: on an object that \<open>fit\<close> never touched, \<open>transform\<close>
  fails for every input, with the AttributeError of the attribute \<open>selected_features\<close>
  that \<open>__init__\<close> does not create, and leaves the object as it was. There is no
  dedicated error for an unfitted model.
\<close>

theorem transform_unfitted:
  "transform (STIR_init n) X = (Inl (AttributeError ''selected_features''), STIR_init n)"
  by (simp add: transform_def STIR_init_def)

text \<open>The failure of an unfitted \<open>transform\<close> is the missing attribute (against C7).\<close>

theorem transform_unfitted_counterexample:
  "transform (STIR_init 10) [[1, 2], [3, 4]]
     = (Inl (AttributeError ''selected_features''), STIR_init 10)"
  by (simp add: transform_def STIR_init_def)

subsection \<open>Zero or one samples (C8)\<close>

text \<open>
  Claim C8, as the code has it. The code has no check of the number of samples. With
  \<open>k \<ge> 1\<close>, an input without samples that passes the input check fails in \<open>max_diff\<close>
  with numpy's error for a reduction over an empty axis, before any distance is computed;
  an input of one sample fails in \<open>find_neighbors\<close> with the shape error of
  \<open>np.column_stack\<close> (\<open>k\<close> indexes against no hit), after the distance matrix
  \<open>[[0]]\<close> has been computed. This holds for every \<open>np.argsort\<close> and every dtype.
\<close>

theorem fit_few_samples:
  assumes "argsort_ok asort" and "length X \<le> 1" and "0 < k"
  shows "fst (fit asort dt self X y names k) =
           (case check_input X y names of
              Inl e \<Rightarrow> Inl e
            | Inr t \<Rightarrow> if X = [] then Inl ZeroSizeReduction else Inl ShapeMismatch)
       \<and> distance_matrix dt X = (if X = [] then Inl ZeroSizeReduction else Inr [[0]])"
proof (cases X)
  case Nil
  have "fst (fit asort dt self [] y names k) =
           (case check_input [] y names of Inl e \<Rightarrow> Inl e | Inr t \<Rightarrow> Inl ZeroSizeReduction)"
    by (simp add: fit_unfold compute_scores_empty split: sum.split prod.split)
  moreover have "distance_matrix dt [] = Inl ZeroSizeReduction"
    using distance_matrix_cases[of "[]" dt] by simp
  ultimately show ?thesis using Nil by simp
next
  case (Cons r rest)
  with assms(2) have X: "X = [r]" by simp
  from compute_scores_nonempty[of "[r]" dt asort y k]
  have "compute_scores asort dt [r] y k = Inl ShapeMismatch"
    by (auto simp: find_neighbors_single[OF assms(1,3)])
  then have "fst (fit asort dt self [r] y names k) =
           (case check_input [r] y names of Inl e \<Rightarrow> Inl e | Inr t \<Rightarrow> Inl ShapeMismatch)"
    by (simp add: fit_unfold split: sum.split prod.split)
  then show ?thesis by (simp add: X distance_matrix_single)
qed

text \<open>
  Against C8 as stated: on one sample the distance matrix is computed, \<open>fit\<close> with
  \<open>k = 1\<close> ends in the shape error of \<open>np.column_stack\<close>, and \<open>fit\<close> with \<open>k = 0\<close>
  returns, with the score 0 and the feature selected. (An array of one element has one
  sorted order.)
\<close>

theorem fit_single_sample_counterexample:
  "distance_matrix Float64 [[5]] = Inr [[0]]
   \<and> fst (fit insertion_argsort Float64 (STIR_init 10) [[5]] [1] None 1) = Inl ShapeMismatch
   \<and> fit insertion_argsort Float64 (STIR_init 10) [[5]] [1] None 0
       = (Inr (),
          \<lparr> n_features_to_keep = 10, feature_scores = Some [0], top_features = None,
            feature_names = Some [], selected_features = Some [0] \<rparr>)"
  by (simp add: stir_eval)

theorem fit_few_samples_witness:
  "argsort_ok insertion_argsort \<and> length [[5::real]] \<le> 1 \<and> (0::nat) < 1
   \<and> fst (fit insertion_argsort Float64 (STIR_init 10) [[5]] [1] None 1) = Inl ShapeMismatch
   \<and> distance_matrix Float64 [[5]] = Inr [[0]]"
proof -
  have 1: "length [[5::real]] \<le> 1" by simp
  have 2: "(0::nat) < 1" by simp
  have c: "check_input [[5]] [1] None = Inr ([[5]], [1], [])"
    by (simp add: check_input_def shape1_def)
  from fit_few_samples[OF insertion_argsort_ok 1 2, of Float64 "STIR_init 10" "[1]" None]
    1 2 insertion_argsort_ok
  show ?thesis by (simp add: c)
qed

subsection \<open>The two range vectors (C9)\<close>

text \<open>
  Claim C9: the range vector of the weight aggregation in \<open>fit\<close> (with the substitution
  of 1e-14 for a zero range) equals the vector by which \<open>distance_matrix\<close> divides, for
  every input of every dtype, also when both fail on an array without rows.
\<close>

theorem range_vec_eq_max_diff_vec: "range_vec dt X = max_diff_vec dt X"
  by (simp add: range_vec_def max_diff_vec_def)

subsection \<open>fit\_transform (C10)\<close>

text \<open>
  Claim C10. Whenever \<open>fit\<close> returns on an input, \<open>transform\<close> of the same input on the
  fitted object returns a matrix, the columns of the input at the selected indices in
  their order, and \<open>fit_transform\<close> on the same arguments returns that matrix and leaves
  the object in that fitted state. This holds for every \<open>np.argsort\<close> and every dtype.
\<close>

theorem fit_transform_eq:
  assumes "argsort_ok asort" and "fit asort dt self X y names k = (Inr u, self')"
  shows "\<exists>sel. selected_features self' = Some sel
     \<and> transform self' X = (Inr (map (\<lambda>row. map (\<lambda>j. row ! j) sel) X), self')
     \<and> fit_transform asort dt self X y names k = transform self' X"
proof -
  from fit_Inr[OF assms(2)] obtain ns scores where
    len: "length scores = shape1 X" and
    s: "self' = self\<lparr>feature_names := Some (zip [0..<shape1 X] ns),
                      feature_scores := Some scores,
                      selected_features :=
                        Some (select_features asort [0..<shape1 X] scores
                                (n_features_to_keep self))\<rparr>"
    by blast
  let ?sel = "select_features asort [0..<shape1 X] scores (n_features_to_keep self)"
  have sel: "selected_features self' = Some ?sel" by (simp add: s)
  obtain c where c: "?sel = take c (rev (asort scores))"
    using py_take_prefix[of "n_features_to_keep self" "rev (asort scores)"]
    by (auto simp: select_features_eq[OF assms(1) len])
  have "set ?sel \<subseteq> set (rev (asort scores))"
    unfolding c by (rule set_take_subset)
  then have b: "\<forall>j\<in>set ?sel. j < shape1 X"
    by (auto simp: set_argsort[OF assms(1)] len)
  have t: "transform self' X = (Inr (map (\<lambda>row. map (\<lambda>j. row ! j) ?sel) X), self')"
    using b by (simp add: transform_def sel take_columns_def)
  have "fit_transform asort dt self X y names k = transform self' X"
    by (simp add: fit_transform_def assms(2))
  with sel t show ?thesis by blast
qed

theorem fit_transform_eq_witness:
  "argsort_ok insertion_argsort
   \<and> fit insertion_argsort Float64 (STIR_init 10) [[0, 7], [1, 7], [3, 7], [4, 7]]
         [1, 1, - 1, - 1] None 1
     = (Inr (),
        \<lparr> n_features_to_keep = 10, feature_scores = Some [375 / 4, 0],
          top_features = None, feature_names = Some [], selected_features = Some [0, 1] \<rparr>)
   \<and> fit_transform insertion_argsort Float64 (STIR_init 10) [[0, 7], [1, 7], [3, 7], [4, 7]]
         [1, 1, - 1, - 1] None 1
     = (Inr [[0, 7], [1, 7], [3, 7], [4, 7]],
        \<lparr> n_features_to_keep = 10, feature_scores = Some [375 / 4, 0],
          top_features = None, feature_names = Some [], selected_features = Some [0, 1] \<rparr>)"
proof -
  have f: "fit insertion_argsort Float64 (STIR_init 10) [[0, 7], [1, 7], [3, 7], [4, 7]]
         [1, 1, - 1, - 1] None 1
     = (Inr (),
        \<lparr> n_features_to_keep = 10, feature_scores = Some [375 / 4, 0],
          top_features = None, feature_names = Some [], selected_features = Some [0, 1] \<rparr>)"
    by (simp add: stir_eval)
  from fit_transform_eq[OF insertion_argsort_ok f] f insertion_argsort_ok
  show ?thesis by auto
qed

end
